theory Spec2Isabelle
  imports Complex_Main "HOL-Library.Multiset"
begin

unbundle bit_operations_syntax

section \<open>JavaScript primitives used by the generator\<close>

text \<open>
  The source is JavaScript. Its numbers are IEEE doubles; every number the generator
  computes is an integer, and the model keeps them as unbounded integers (\<open>int\<close>), which
  agrees with the doubles as long as the values stay below \<open>2 ^ 53\<close>. The value NaN,
  which \<open>parseInt\<close> returns for text without digits, is \<open>None\<close> of \<open>int option\<close>.
  The 32-bit operators convert their operands first: \<open>ToInt32\<close> and \<open>ToUint32\<close> reduce
  modulo \<open>2 ^ 32\<close> into the signed and the unsigned range, and send NaN to 0.
\<close>

definition ToInt32 :: "int \<Rightarrow> int" where
  "ToInt32 x = signed_take_bit 31 x"

definition ToUint32 :: "int \<Rightarrow> int" where
  "ToUint32 x = take_bit 32 x"

text \<open>\<open>x << k\<close>: shift within 32 bits, the result read as a signed 32-bit value.\<close>

definition shl :: "int \<Rightarrow> nat \<Rightarrow> int" where
  "shl x k = ToInt32 (push_bit (k mod 32) (ToInt32 x))"

text \<open>\<open>x >>> k\<close>: the unsigned shift; \<open>x >>> 0\<close> is \<open>ToUint32 x\<close>.\<close>

definition ushr :: "int \<Rightarrow> nat \<Rightarrow> int" where
  "ushr x k = drop_bit (k mod 32) (ToUint32 x)"

text \<open>\<open>x & y\<close> on the signed 32-bit readings of both operands.\<close>

definition band :: "int \<Rightarrow> int \<Rightarrow> int" where
  "band x y = ToInt32 x AND ToInt32 y"

text \<open>
  Strings are lists of bytes. \<open>Number_toString\<close> is the decimal rendering of an integer
  below \<open>10 ^ 21\<close> in absolute value, as \<open>Array.prototype.join\<close> and template literals
  produce it for the octets, counters and quantities of this program; \<open>decimal\<close> renders
  a non-negative integer.
\<close>

definition digit_char :: "int \<Rightarrow> char" where
  "digit_char d = char_of (48 + d)"

function decimal :: "int \<Rightarrow> string" where
  "decimal n = (if n < 10 then [digit_char n] else decimal (n div 10) @ [digit_char (n mod 10)])"
  by pat_completeness auto
termination
  by (relation "measure nat") auto

declare decimal.simps [simp del]

definition Number_toString :: "int \<Rightarrow> string" where
  "Number_toString i = (if i < 0 then CHR ''-'' # decimal (- i) else decimal i)"

fun join :: "string \<Rightarrow> string list \<Rightarrow> string" where
  "join sep [] = []"
| "join sep [x] = x"
| "join sep (x # y # ys) = x @ sep @ join sep (y # ys)"

text \<open>\<open>s.split(c)\<close> for a one-character separator: never an empty array.\<close>

fun split :: "char \<Rightarrow> string \<Rightarrow> string list" where
  "split sep [] = [[]]"
| "split sep (c # cs) =
     (if c = sep then [] # split sep cs
      else (case split sep cs of
              [] \<Rightarrow> [[c]]
            | w # ws \<Rightarrow> (c # w) # ws))"

text \<open>\<open>s.includes(t)\<close>: \<open>t\<close> occurs in \<open>s\<close> as a contiguous substring.\<close>

fun startsWith :: "string \<Rightarrow> string \<Rightarrow> bool" where
  "startsWith s [] = True"
| "startsWith [] (p # ps) = False"
| "startsWith (c # cs) (p # ps) = (c = p \<and> startsWith cs ps)"

fun includes_str :: "string \<Rightarrow> string \<Rightarrow> bool" where
  "includes_str [] t = (t = [])"
| "includes_str (c # cs) t = (startsWith (c # cs) t \<or> includes_str cs t)"

text \<open>
  \<open>parseInt(s)\<close> without a radix: leading white space is skipped, then an optional sign,
  then an optional \<open>0x\<close> or \<open>0X\<close> that selects radix 16, then the longest run of digits
  of the radix; what follows is ignored. No digit at all gives NaN. (White space is
  the ASCII part of the language's list.)
\<close>

definition isStrWhiteSpace :: "char \<Rightarrow> bool" where
  "isStrWhiteSpace c = (c \<in> set [CHR 0x09, CHR 0x0A, CHR 0x0B, CHR 0x0C, CHR 0x0D, CHR 0x20])"

definition digitVal :: "char \<Rightarrow> int option" where
  "digitVal c =
     (let n = (of_char c :: int) in
      if 48 \<le> n \<and> n \<le> 57 then Some (n - 48)
      else if 97 \<le> n \<and> n \<le> 102 then Some (n - 87)
      else if 65 \<le> n \<and> n \<le> 70 then Some (n - 55)
      else None)"

definition isRadixDigit :: "int \<Rightarrow> char \<Rightarrow> bool" where
  "isRadixDigit r c = (case digitVal c of None \<Rightarrow> False | Some d \<Rightarrow> d < r)"

fun parseDigits :: "int \<Rightarrow> int \<Rightarrow> string \<Rightarrow> int" where
  "parseDigits r acc [] = acc"
| "parseDigits r acc (c # cs) =
     (case digitVal c of
        None \<Rightarrow> acc
      | Some d \<Rightarrow> if d < r then parseDigits r (acc * r + d) cs else acc)"

definition parseInt :: "string \<Rightarrow> int option" where
  "parseInt s =
     (let s1 = dropWhile isStrWhiteSpace s;
          neg = startsWith s1 ''-'';
          s2 = (if startsWith s1 ''-'' \<or> startsWith s1 ''+'' then tl s1 else s1);
          hex = (startsWith s2 ''0x'' \<or> startsWith s2 ''0X'');
          r = (if hex then 16 else 10);
          s3 = (if hex then drop 2 s2 else s2)
      in case s3 of
           [] \<Rightarrow> None
         | c # cs \<Rightarrow>
             if isRadixDigit r c
             then Some ((if neg then - 1 else 1) * parseDigits r 0 s3)
             else None)"

section \<open>Address arithmetic\<close>

text \<open>
  \<open>ipToNumber(ip)\<close> is
  \<open>ip.split('.').reduce((acc, octet) => (acc << 8) + parseInt(octet), 0) >>> 0\<close>.
  The accumulator is a number or NaN: \<open><<\<close> reads NaN as 0, \<open>+\<close> keeps NaN.
\<close>

definition ipStep :: "int option \<Rightarrow> string \<Rightarrow> int option" where
  "ipStep acc octet =
     (case parseInt octet of
        None \<Rightarrow> None
      | Some v \<Rightarrow> Some (shl (case acc of None \<Rightarrow> 0 | Some a \<Rightarrow> a) 8 + v))"

definition ipToNumber :: "string \<Rightarrow> int" where
  "ipToNumber ip =
     (case foldl ipStep (Some 0) (split CHR ''.'' ip) of
        None \<Rightarrow> 0
      | Some a \<Rightarrow> ushr a 0)"

definition numberToIp :: "int \<Rightarrow> string" where
  "numberToIp num =
     join ''.'' (map Number_toString
       [band (ushr num 24) 255, band (ushr num 16) 255, band (ushr num 8) 255, band num 255])"

text \<open>
  \<open>Math.pow(2, e)\<close> for an integer \<open>e\<close>. For \<open>e < 0\<close> the source gets a fraction strictly
  between 0 and 1 (or 0, by underflow); the model rounds it down to 0. A negative exponent
  only comes from a registry entry with a mask above 32, in \<open>usedEnd\<close> of
  \<open>isRangeAvailable\<close>: there the test \<open>rangeStartNum > usedStart + f - 1\<close> on integers
  \<open>rangeStartNum\<close> and \<open>usedStart\<close> has the same outcome for every \<open>f\<close> with \<open>0 \<le> f < 1\<close>.
  The masks of candidates and of returned ranges are at most 30.
\<close>

definition pow2 :: "int \<Rightarrow> int" where
  "pow2 e = (if e < 0 then 0 else 2 ^ nat e)"

definition cidrOctet :: "int \<Rightarrow> int \<Rightarrow> int" where
  "cidrOctet cidr i = (let bits = max 0 (min 8 (cidr - i * 8)) in band (shl 255 (nat (8 - bits))) 255)"

definition cidrToDecimal :: "int \<Rightarrow> string" where
  "cidrToDecimal cidr = join ''.'' (map (\<lambda>i. Number_toString (cidrOctet cidr i)) [0, 1, 2, 3])"

definition hostsForMask :: "int \<Rightarrow> int" where
  "hostsForMask m = pow2 (32 - m) - 2"

section \<open>Errors and the file system\<close>

text \<open>
  A thrown exception is the left summand of the result. \<open>Error msg\<close> is the generator's own
  \<open>throw new Error(msg)\<close>; \<open>TypeError\<close> is the engine's (calling what is not a
  function); \<open>SyntaxError\<close> is \<open>JSON.parse\<close>'s; \<open>FsError\<close> is whatever \<open>fs\<close> throws.
\<close>

datatype js_error = Error string | TypeError | SyntaxError | FsError string

definition PoolExhausted :: js_error where
  "PoolExhausted = Error ''Brak wolnych pul adresowych!''"

definition bind :: "js_error + 'a \<Rightarrow> ('a \<Rightarrow> js_error + 'b) \<Rightarrow> js_error + 'b" where
  "bind r f = (case r of Inl e \<Rightarrow> Inl e | Inr v \<Rightarrow> f v)"

text \<open>\<open>try { body } catch { handler }\<close>.\<close>

definition try_catch :: "js_error + 'a \<Rightarrow> (js_error + 'a) \<Rightarrow> js_error + 'a" where
  "try_catch body handler = (case body of Inl e \<Rightarrow> handler | Inr v \<Rightarrow> Inr v)"

text \<open>
  The file system maps a path to a file, or to nothing where no file is. A file carries
  whether it may be read and written. Creating a file that is not there is taken to
  succeed.
\<close>

datatype file_node = File (perm_read: bool) (perm_write: bool) (content: string)

type_synonym filesystem = "string \<Rightarrow> file_node option"

definition readFileSync :: "filesystem \<Rightarrow> string \<Rightarrow> js_error + string" where
  "readFileSync fs p =
     (case fs p of
        None \<Rightarrow> Inl (FsError ''ENOENT'')
      | Some f \<Rightarrow> if perm_read f then Inr (content f) else Inl (FsError ''EACCES''))"

definition writeFileSync :: "filesystem \<Rightarrow> string \<Rightarrow> string \<Rightarrow> js_error + filesystem" where
  "writeFileSync fs p d =
     (case fs p of
        None \<Rightarrow> Inr (fs(p \<mapsto> File True True d))
      | Some f \<Rightarrow> if perm_write f then Inr (fs(p \<mapsto> File (perm_read f) True d))
                  else Inl (FsError ''EACCES''))"

section \<open>Range registry\<close>

text \<open>
  \<open>findAvailableRange\<close> returns an object with \<open>network\<close> and \<open>mask\<close>; a registry entry
  has three more fields. The field \<open>mask\<close> is \<open>mask_len\<close> here.
\<close>

record rangeInfo =
  network :: string
  mask_len :: int

record reservation = rangeInfo +
  rangeStart :: string
  rangeEnd :: string
  assignedTo :: string

text \<open>
  \<open>JSON.parse\<close>, \<open>JSON.stringify\<close> and the CSV writer are library code, taken as
  parameters. The parser either throws or yields the list of reservations that the text
  denotes: a registry file holds what \<open>saveUsedRanges\<close> wrote, an array of reservation
  objects. Text that parses to a JSON value of another shape is outside the model;
  \<open>loadUsedRanges\<close> hands such a value on as it is.
\<close>

record builtins =
  JSON_parse :: "string \<Rightarrow> js_error + reservation list"
  JSON_stringify :: "reservation list \<Rightarrow> string"

definition loadUsedRanges :: "builtins \<Rightarrow> filesystem \<Rightarrow> string \<Rightarrow> js_error + reservation list" where
  "loadUsedRanges lib fs dataPath =
     try_catch
       (bind (readFileSync fs dataPath) (\<lambda>data. JSON_parse lib data))
       (Inr [])"

definition saveUsedRanges ::
    "builtins \<Rightarrow> filesystem \<Rightarrow> string \<Rightarrow> reservation list \<Rightarrow> js_error + filesystem" where
  "saveUsedRanges lib fs dataPath ranges = writeFileSync fs dataPath (JSON_stringify lib ranges)"

section \<open>Address space allocator\<close>

fun isRangeAvailable :: "int \<Rightarrow> int \<Rightarrow> ('a rangeInfo_scheme) list \<Rightarrow> bool" where
  "isRangeAvailable networkNum m [] = True"
| "isRangeAvailable networkNum m (used # usedRanges) =
     (let maskSize = pow2 (32 - m);
          rangeStartNum = networkNum;
          rangeEndNum = networkNum + maskSize - 1;
          usedStart = ipToNumber (network used);
          usedEnd = usedStart + pow2 (32 - mask_len used) - 1
      in if \<not> (rangeEndNum < usedStart \<or> rangeStartNum > usedEnd) then False
         else isRangeAvailable networkNum m usedRanges)"

text \<open>
  \<open>Math.ceil(Math.log2(x))\<close> for an integer \<open>x\<close> with \<open>1 \<le> x \<le> 2 ^ 48\<close>: the least \<open>b\<close>
  with \<open>x \<le> 2 ^ b\<close>, computed on integers. In this range the logarithm of a number that
  is not a power of two is more than 0.7 units in the last place of a double away from
  every integer, so that a \<open>Math.log2\<close> of that accuracy, exact on the powers of two, has
  the same ceiling. Above \<open>2 ^ 48\<close> this is no longer so (the double nearest to the
  logarithm of \<open>2 ^ 49 + 1\<close> is 49), and the integer function is not used there.
\<close>

function ceilLog2 :: "int \<Rightarrow> int" where
  "ceilLog2 x = (if x \<le> 1 then 0 else 1 + ceilLog2 ((x + 1) div 2))"
  by pat_completeness auto
termination
  by (relation "measure nat") auto

declare ceilLog2.simps [simp del]

text \<open>
  \<open>findSmallestMask(hosts)\<close> is \<open>32 - Math.ceil(Math.log2(hosts + 2))\<close>. For
  \<open>hosts + 2 = 0\<close> the logarithm is \<open>-Infinity\<close> and the result \<open>Infinity\<close>; for
  \<open>hosts + 2 < 0\<close> both are NaN. \<open>None\<close> stands for either: all the caller does with
  the result is the test \<open>mask <= 30\<close>, false for both. For \<open>hosts + 2\<close> above \<open>2 ^ 48\<close> the
  result depends on how the double logarithm rounds; the model leaves it unspecified, so
  that nothing is proved about such requests.
\<close>

definition findSmallestMask :: "int \<Rightarrow> int option" where
  "findSmallestMask hosts =
     (if hosts + 2 \<le> 0 then None
      else if hosts + 2 \<le> 281474976710656
      then (let bitsNeeded = ceilLog2 (hosts + 2) in Some (32 - bitsNeeded))
      else undefined)"

text \<open>The inner loop \<open>while (tries--)\<close>: the first free block among the next \<open>tries\<close>.\<close>

fun probe :: "int \<Rightarrow> int \<Rightarrow> ('a rangeInfo_scheme) list \<Rightarrow> nat \<Rightarrow> int option" where
  "probe candidateNetNum m usedRanges 0 = None"
| "probe candidateNetNum m usedRanges (Suc tries) =
     (if isRangeAvailable candidateNetNum m usedRanges then Some candidateNetNum
      else probe (candidateNetNum + pow2 (32 - m)) m usedRanges tries)"

definition maxTries :: nat where
  "maxTries = 512"

text \<open>The outer loop \<open>while (mask <= 30)\<close>, then the \<open>throw\<close>.\<close>

function scanMasks :: "string \<Rightarrow> int \<Rightarrow> ('a rangeInfo_scheme) list \<Rightarrow> js_error + rangeInfo" where
  "scanMasks baseNetwork m usedRanges =
     (if m \<le> 30 then
        (case probe (ipToNumber baseNetwork) m usedRanges maxTries of
           Some candidateNetNum \<Rightarrow> Inr \<lparr>network = numberToIp candidateNetNum, mask_len = m\<rparr>
         | None \<Rightarrow> scanMasks baseNetwork (m + 1) usedRanges)
      else Inl PoolExhausted)"
  by pat_completeness auto
termination
  by (relation "measure (\<lambda>(baseNetwork, m, usedRanges). nat (31 - m))") auto

declare scanMasks.simps [simp del]

definition findAvailableRange ::
    "string \<Rightarrow> int \<Rightarrow> ('a rangeInfo_scheme) list \<Rightarrow> js_error + rangeInfo" where
  "findAvailableRange baseNetwork minRequired usedRanges =
     (case findSmallestMask minRequired of
        None \<Rightarrow> Inl PoolExhausted
      | Some m \<Rightarrow> scanMasks baseNetwork m usedRanges)"

section \<open>Row classifier\<close>

record row =
  nazwaObiektu :: string
  kategoria :: string
  nazwa :: string
  ilosc :: int
  klasa :: string

text \<open>
  \<open>grupyLanz\<close> is a plain object used as a dictionary. Its own properties are kept in
  creation order. Reading \<open>grupyLanz[k]\<close> finds an own property, and otherwise what
  \<open>Object.prototype\<close> has under that name: a function, or for \<open>__proto__\<close> the prototype
  itself; all of them truthy and none with a \<open>push\<close> method.
\<close>

type_synonym 'v js_object = "(string \<times> 'v) list"

definition objectPrototypeKeys :: "string list" where
  "objectPrototypeKeys =
     [''constructor'', ''__defineGetter__'', ''__defineSetter__'', ''hasOwnProperty'',
      ''__lookupGetter__'', ''__lookupSetter__'', ''isPrototypeOf'', ''propertyIsEnumerable'',
      ''toString'', ''valueOf'', ''__proto__'', ''toLocaleString'']"

text \<open>Assignment \<open>obj[k] = v\<close>: an own property keeps its place, a new one goes last.\<close>

fun setProp :: "string \<Rightarrow> 'v \<Rightarrow> 'v js_object \<Rightarrow> 'v js_object" where
  "setProp k v [] = [(k, v)]"
| "setProp k v (p # ps) = (if fst p = k then (k, v) # ps else p # setProp k v ps)"

text \<open>
  An array index is a key that is the decimal rendering of an integer below \<open>2 ^ 32 - 1\<close>.
  \<open>Object.values\<close> lists the values of the array-index keys first, in ascending numeric
  order, then the values of the other keys in creation order.
\<close>

definition isArrayIndex :: "string \<Rightarrow> bool" where
  "isArrayIndex k =
     (k \<noteq> [] \<and> list_all (isRadixDigit 10) k \<and> decimal (parseDigits 10 0 k) = k
      \<and> parseDigits 10 0 k < 4294967295)"

definition Object_values :: "'v js_object \<Rightarrow> 'v list" where
  "Object_values obj =
     map snd (sort_key (\<lambda>p. parseDigits 10 0 (fst p)) (filter (\<lambda>p. isArrayIndex (fst p)) obj))
     @ map snd (filter (\<lambda>p. \<not> isArrayIndex (fst p)) obj)"

text \<open>
  The \<open>forEach\<close> that fills \<open>grupyLanz\<close>:
  \<open>if (!grupyLanz[k]) grupyLanz[k] = []; grupyLanz[k].push(row)\<close>.
\<close>

fun groupLanz :: "row list js_object \<Rightarrow> row list \<Rightarrow> js_error + row list js_object" where
  "groupLanz grupyLanz [] = Inr grupyLanz"
| "groupLanz grupyLanz (r # rs) =
     (let k = nazwaObiektu r in
      case map_of grupyLanz k of
        Some grupa \<Rightarrow> groupLanz (setProp k (grupa @ [r]) grupyLanz) rs
      | None \<Rightarrow>
          if k \<in> set objectPrototypeKeys then Inl TypeError
          else groupLanz (setProp k [r] grupyLanz) rs)"

definition sortGroup :: "row list \<Rightarrow> row list" where
  "sortGroup grupa =
     (let wvU1532LA = filter (\<lambda>r. includes_str (nazwa r) ''WV-U1532LA'') grupa;
          wvS1536LTN = filter (\<lambda>r. includes_str (nazwa r) ''WV-S1536LTN'') grupa;
          reszta = filter (\<lambda>r. \<not> includes_str (nazwa r) ''WV-U1532LA''
                               \<and> \<not> includes_str (nazwa r) ''WV-S1536LTN'') grupa
      in wvU1532LA @ wvS1536LTN @ reszta)"

definition sortCsvRows :: "row list \<Rightarrow> js_error + row list" where
  "sortCsvRows csvRows =
     (let klasaBrak = filter (\<lambda>r. klasa r = [] \<or> klasa r = ''brak'') csvRows;
          klasaLan = filter (\<lambda>r. klasa r = ''lan'') csvRows;
          klasaLanz = filter (\<lambda>r. klasa r = ''lanz'') csvRows
      in case groupLanz [] klasaLanz of
           Inl e \<Rightarrow> Inl e
         | Inr grupyLanz \<Rightarrow>
             (let sortedLanz =
                    foldl (\<lambda>sortedLanz grupa. sortedLanz @ sortGroup grupa) [] (Object_values grupyLanz);
                  klasaLanz1 = filter (\<lambda>r. klasa r = ''lanz1'') csvRows
              in Inr (klasaBrak @ klasaLan @ sortedLanz @ klasaLanz1)))"

section \<open>Equipment deriver\<close>

text \<open>\<open>rows.filter(p).reduce((sum, row) => sum + row.ilosc, 0)\<close>.\<close>

definition sumIlosc :: "row list \<Rightarrow> int" where
  "sumIlosc rs = foldl (\<lambda>sum r. sum + ilosc r) 0 rs"

definition countCameraSets :: "row list \<Rightarrow> int" where
  "countCameraSets csvRows =
     sumIlosc (filter (\<lambda>r. (includes_str (nazwa r) ''U1532'' \<or> includes_str (nazwa r) ''S1536LTN'')
                            \<and> klasa r \<noteq> ''lanz1'') csvRows)"

definition countU1532CamerasInKATObjects :: "row list \<Rightarrow> int" where
  "countU1532CamerasInKATObjects csvRows =
     sumIlosc (filter (\<lambda>r. includes_str (nazwa r) ''U1532''
                            \<and> (kategoria r = ''KAT A'' \<or> kategoria r = ''KAT B'')
                            \<and> klasa r \<noteq> ''lanz1'') csvRows)"

definition countSKPAndKATACameras :: "row list \<Rightarrow> int" where
  "countSKPAndKATACameras csvRows =
     sumIlosc (filter (\<lambda>r. (kategoria r = ''SKP'' \<or> kategoria r = ''KAT A'')
                            \<and> klasa r \<noteq> ''lanz1'') csvRows)"

text \<open>
  \<open>Math.ceil(a / b)\<close> for integers \<open>a\<close> and \<open>b > 0\<close>. The quotient of the doubles is either
  the exact integer or at least \<open>1 / b\<close> away from one, so its ceiling is the integer one.
\<close>

definition ceilDiv :: "int \<Rightarrow> int \<Rightarrow> int" where
  "ceilDiv a b = - ((- a) div b)"

record equipment =
  nazwa_e :: string
  klasa_e :: string
  typ_e :: string
  ilosc_e :: int
  opis_e :: string

text \<open>
  The flags of \<open>config\<close>; \<open>None\<close> is a missing field, for which the destructuring
  default \<open>false\<close> applies.
\<close>

record config =
  lprEnabled :: "bool option"
  redLightEnabled :: "bool option"

definition DISK_CAPACITIES_16TB :: int where
  "DISK_CAPACITIES_16TB = 16000"

text \<open>Letters outside ASCII are written as their UTF-8 bytes.\<close>

definition serverItem :: "int \<Rightarrow> int \<Rightarrow> equipment" where
  "serverItem maxSetsPerServer i =
     \<lparr>nazwa_e = ''Serwer LPR '' @ Number_toString i,
      klasa_e = ''Klasa-0'',
      typ_e = ''serwer'',
      ilosc_e = 1,
      opis_e = ''Serwer dla zestawu kamer U1532/S1536LTN (max '' @ Number_toString maxSetsPerServer
               @ '' zestaw'' @ [CHR 0xC3, CHR 0xB3] @ ''w)''\<rparr>"

definition ssvItem :: "int \<Rightarrow> equipment" where
  "ssvItem ssvLicenses =
     \<lparr>nazwa_e = ''Licencja SSV'',
      klasa_e = ''Klasa-0'',
      typ_e = ''licencja'',
      ilosc_e = ssvLicenses,
      opis_e = ''Licencja SSV dla '' @ Number_toString ssvLicenses @ '' kamer (minimum 8)''\<rparr>"

definition vcaItem :: "int \<Rightarrow> equipment" where
  "vcaItem vcaLicenses =
     \<lparr>nazwa_e = ''Licencja VCA'',
      klasa_e = ''Klasa-0'',
      typ_e = ''licencja'',
      ilosc_e = vcaLicenses,
      opis_e = ''Licencja VCA dla '' @ Number_toString vcaLicenses
               @ '' kamer U1532 w obiektach KAT A/B''\<rparr>"

definition recorderItem :: "int \<Rightarrow> equipment" where
  "recorderItem i =
     \<lparr>nazwa_e = ''Rejestrator NVR '' @ Number_toString i,
      klasa_e = ''Klasa-0'',
      typ_e = ''rejestrator'',
      ilosc_e = 1,
      opis_e = ''Rejestrator dla kamer (pojemno'' @ [CHR 0xC5, CHR 0x9B, CHR 0xC4, CHR 0x87]
               @ '': '' @ Number_toString DISK_CAPACITIES_16TB @ ''GB)''\<rparr>"

text \<open>The loop \<open>for (let i = 1; i <= n; i++) equipment.push(item(i))\<close>.\<close>

function pushItems :: "(int \<Rightarrow> equipment) \<Rightarrow> int \<Rightarrow> int \<Rightarrow> equipment list \<Rightarrow> equipment list" where
  "pushItems item i n equipment =
     (if i \<le> n then pushItems item (i + 1) n (equipment @ [item i]) else equipment)"
  by pat_completeness auto
termination
  by (relation "measure (\<lambda>(item, i, n, equipment). nat (n + 1 - i))") auto

declare pushItems.simps [simp del]

definition generateNastawniaEquipment :: "row list \<Rightarrow> config \<Rightarrow> equipment list" where
  "generateNastawniaEquipment csvRows cfg =
     (let lpr = (case lprEnabled cfg of None \<Rightarrow> False | Some b \<Rightarrow> b);
          redLight = (case redLightEnabled cfg of None \<Rightarrow> False | Some b \<Rightarrow> b);
          equipment = []
      in if \<not> lpr then equipment
         else
           (let cameraSets = countCameraSets csvRows;
                allCameras = countSKPAndKATACameras csvRows;
                u1532Cameras = countU1532CamerasInKATObjects csvRows;
                maxSetsPerServer = (if redLight then 4 else 12);
                ssvLicenses = (if redLight then max 8 allCameras else max 8 allCameras);
                vcaLicenses = (if redLight then u1532Cameras else 0);
                serversNeeded = ceilDiv cameraSets maxSetsPerServer;
                equipment = pushItems (serverItem maxSetsPerServer) 1 serversNeeded equipment;
                equipment = (if ssvLicenses > 0 then equipment @ [ssvItem ssvLicenses] else equipment);
                equipment = (if vcaLicenses > 0 then equipment @ [vcaItem vcaLicenses] else equipment);
                equipment =
                  (if cameraSets > 0
                   then (let recordersNeeded = ceilDiv cameraSets 16
                         in pushItems recorderItem 1 recordersNeeded equipment)
                   else equipment)
            in equipment))"

section \<open>Allocation and address assignment\<close>

text \<open>
  One record per physical unit. The fields are the columns \<open>Nazwa Obiektu\<close>,
  \<open>Kategoria\<close>, \<open>Nazwa\<close>, \<open>Adres ip V4\<close>, \<open>Maska\<close>, \<open>Brama domyslna\<close> (the gateway;
  written here without its diacritic) and \<open>Serwer NTP\<close> of the output.
\<close>

record outputRow =
  out_nazwaObiektu :: string
  out_kategoria :: string
  out_nazwa :: string
  adresIP :: string
  maska :: string
  brama :: string
  serwerNTP :: string

text \<open>The CSV writer and \<open>path.join\<close>, library code taken as parameters.\<close>

record csv_builtins =
  csv_stringify :: "outputRow list \<Rightarrow> string"
  path_join :: "string \<Rightarrow> string \<Rightarrow> string"

text \<open>What \<open>generateAdresacja\<close> returns.\<close>

record adresacja =
  fileName :: string
  siecNazwa :: string
  rows :: "outputRow list"
  network_a :: string
  mask_a :: int
  rangeStart_a :: string
  rangeEnd_a :: string
  stationEquipment :: "equipment list"

text \<open>
  The body of \<open>sortedRows.forEach\<close>: the loop \<open>for (let i = 0; i < row.ilosc; i++)\<close> runs
  \<open>row.ilosc\<close> times (not at all for a quantity below 1); its state is \<open>currentIP\<close> and
  \<open>outputRows\<close>.
\<close>

definition unitRow :: "row \<Rightarrow> string \<Rightarrow> int \<Rightarrow> string \<Rightarrow> outputRow" where
  "unitRow r adres m rangeStart' =
     \<lparr>out_nazwaObiektu = nazwaObiektu r,
      out_kategoria = kategoria r,
      out_nazwa = nazwa r,
      adresIP = adres,
      maska = (if klasa r = ''lanz1'' then ''DHCP'' else cidrToDecimal m),
      brama = (if klasa r = ''lanz1'' then ''DHCP'' else rangeStart'),
      serwerNTP = (if klasa r = ''lanz1'' then ''DHCP'' else rangeStart')\<rparr>"

fun unitsLoop ::
    "int \<Rightarrow> string \<Rightarrow> row \<Rightarrow> nat \<Rightarrow> int \<times> outputRow list \<Rightarrow> int \<times> outputRow list" where
  "unitsLoop m rangeStart' r 0 st = st"
| "unitsLoop m rangeStart' r (Suc k) (currentIP, outputRows) =
     (if klasa r = ''lanz1''
      then unitsLoop m rangeStart' r k
             (currentIP, outputRows @ [unitRow r ''DHCP'' m rangeStart'])
      else unitsLoop m rangeStart' r k
             (currentIP + 1, outputRows @ [unitRow r (numberToIp currentIP) m rangeStart']))"

definition assignRows :: "int \<Rightarrow> string \<Rightarrow> row list \<Rightarrow> outputRow list" where
  "assignRows m rangeStart' sortedRows =
     snd (foldl (\<lambda>st r. unitsLoop m rangeStart' r (nat (ilosc r)) st)
            (ipToNumber rangeStart', []) sortedRows)"

text \<open>
  \<open>Math.ceil(totalDevices * 1.2)\<close>. The double nearest to 1.2 is below it by less than
  \<open>5 * 10 ^ -17\<close>, and the product is rounded once more; for a total below \<open>2 ^ 49\<close> the
  result is the integer \<open>6 * totalDevices / 5\<close> where that is one, and otherwise lies strictly
  between the same two integers as the exact product. So the ceiling is that of
  \<open>6 * totalDevices / 5\<close>.
\<close>

definition withBuffer :: "int \<Rightarrow> int" where
  "withBuffer totalDevices = ceilDiv (totalDevices * 6) 5"

definition baseNetwork :: string where
  "baseNetwork = ''172.16.0.0''"

text \<open>
  The network name: \<open>fileBase.match(/^wykaz_([^_]+)_/i)\<close> gives the text between the
  prefix \<open>wykaz_\<close> (in any case of its ASCII letters) and the next underscore, when that
  text is not empty and the underscore is there; otherwise the name is \<open>fileBase\<close>.
\<close>

definition toLowerAscii :: "char \<Rightarrow> char" where
  "toLowerAscii c =
     (let n = (of_char c :: int) in if 65 \<le> n \<and> n \<le> 90 then char_of (n + 32) else c)"

definition siecNazwaOf :: "string \<Rightarrow> string" where
  "siecNazwaOf fileBase =
     (if map toLowerAscii (take 6 fileBase) = ''wykaz_''
      then (let rest = drop 6 fileBase;
                grp = takeWhile (\<lambda>c. c \<noteq> CHR ''_'') rest
            in if grp \<noteq> [] \<and> length grp < length rest then grp else fileBase)
      else fileBase)"

text \<open>
  \<open>generateAdresacja\<close> from the parsed rows on: \<open>csvRows\<close> is the result of reading and
  parsing the input file, \<open>fileBase\<close> the input file's base name without its extension.
  The result is what is returned or thrown, and the file system afterwards.
\<close>

definition generateAdresacja ::
    "builtins \<Rightarrow> csv_builtins \<Rightarrow> filesystem \<Rightarrow> row list \<Rightarrow> string \<Rightarrow> string \<Rightarrow> string \<Rightarrow> config
      \<Rightarrow> (js_error + adresacja) \<times> filesystem" where
  "generateAdresacja lib csv fs csvRows fileBase dataJsonPath outputDir cfg =
     (case sortCsvRows csvRows of
        Inl e \<Rightarrow> (Inl e, fs)
      | Inr sortedRows \<Rightarrow>
     (let totalDevices = sumIlosc sortedRows;
          devicesWithBuffer = withBuffer totalDevices
      in case loadUsedRanges lib fs dataJsonPath of
        Inl e \<Rightarrow> (Inl e, fs)
      | Inr usedRanges \<Rightarrow>
     (case findAvailableRange baseNetwork devicesWithBuffer usedRanges of
        Inl e \<Rightarrow> (Inl e, fs)
      | Inr rangeInfo \<Rightarrow>
     (let rangeStart' = numberToIp (ipToNumber (network rangeInfo) + 1);
          rangeEnd' = numberToIp (ipToNumber (network rangeInfo) + hostsForMask (mask_len rangeInfo));
          outputFileName = ''Adresacja_'' @ fileBase @ ''.csv'';
          usedRanges = usedRanges @
            [\<lparr>network = network rangeInfo, mask_len = mask_len rangeInfo,
              rangeStart = rangeStart', rangeEnd = rangeEnd', assignedTo = outputFileName\<rparr>]
      in case saveUsedRanges lib fs dataJsonPath usedRanges of
        Inl e \<Rightarrow> (Inl e, fs)
      | Inr fs1 \<Rightarrow>
     (let outputRows = assignRows (mask_len rangeInfo) rangeStart' sortedRows;
          stationEquipment' = generateNastawniaEquipment csvRows cfg;
          outputCsv = csv_stringify csv outputRows
      in case writeFileSync fs1 (path_join csv outputDir outputFileName) outputCsv of
        Inl e \<Rightarrow> (Inl e, fs1)
      | Inr fs2 \<Rightarrow>
          (Inr \<lparr>fileName = outputFileName,
                siecNazwa = siecNazwaOf fileBase,
                rows = outputRows,
                network_a = network rangeInfo,
                mask_a = mask_len rangeInfo,
                rangeStart_a = rangeStart',
                rangeEnd_a = rangeEnd',
                stationEquipment = stationEquipment'\<rparr>, fs2))))))"

section \<open>Notions of the specification\<close>

text \<open>
  The integer address interval of a reservation,
  \<open>[network, network + 2 ^ (32 - mask) - 1]\<close>, and what it means for two of them to
  intersect and for a registry to be pairwise disjoint.
\<close>

definition firstAddress :: "'a rangeInfo_scheme \<Rightarrow> int" where
  "firstAddress r = ipToNumber (network r)"

definition lastAddress :: "'a rangeInfo_scheme \<Rightarrow> int" where
  "lastAddress r = ipToNumber (network r) + pow2 (32 - mask_len r) - 1"

definition intersects :: "'a rangeInfo_scheme \<Rightarrow> 'b rangeInfo_scheme \<Rightarrow> bool" where
  "intersects r u = (max (firstAddress r) (firstAddress u) \<le> min (lastAddress r) (lastAddress u))"

fun pairwiseDisjoint :: "('a rangeInfo_scheme) list \<Rightarrow> bool" where
  "pairwiseDisjoint [] = True"
| "pairwiseDisjoint (r # rs) = (list_all (\<lambda>u. \<not> intersects r u) rs \<and> pairwiseDisjoint rs)"

text \<open>
  The \<open>k\<close>-th candidate block of mask \<open>m\<close> probed from a base network, as the range that
  the allocator hands out and records for it; and a block that is free: it intersects no
  reservation of the registry.
\<close>

definition candidateBlock :: "string \<Rightarrow> int \<Rightarrow> nat \<Rightarrow> rangeInfo" where
  "candidateBlock base m k =
     \<lparr>network = numberToIp (ipToNumber base + int k * pow2 (32 - m)), mask_len = m\<rparr>"

definition freeBlock :: "'a rangeInfo_scheme \<Rightarrow> ('b rangeInfo_scheme) list \<Rightarrow> bool" where
  "freeBlock r registry = list_all (\<lambda>u. \<not> intersects r u) registry"

text \<open>A unit is dynamic when its address column holds the sentinel.\<close>

definition isDynamic :: "outputRow \<Rightarrow> bool" where
  "isDynamic u = (adresIP u = ''DHCP'')"

text \<open>
  The units the specification expects for a list of rows, in order: a row of class
  \<open>lanz1\<close> and quantity \<open>q\<close> gives \<open>q\<close> units marked dynamic and uses no address; any
  other row gives \<open>q\<close> units with the next \<open>q\<close> consecutive addresses. Every static unit
  has the subnet's mask in dotted form and the gateway as gateway and NTP server.
\<close>

fun expectedUnits :: "int \<Rightarrow> string \<Rightarrow> int \<Rightarrow> row list \<Rightarrow> outputRow list" where
  "expectedUnits m gateway ip [] = []"
| "expectedUnits m gateway ip (r # rs) =
     (if klasa r = ''lanz1''
      then replicate (nat (ilosc r))
             \<lparr>out_nazwaObiektu = nazwaObiektu r, out_kategoria = kategoria r, out_nazwa = nazwa r,
              adresIP = ''DHCP'', maska = ''DHCP'', brama = ''DHCP'', serwerNTP = ''DHCP''\<rparr>
           @ expectedUnits m gateway ip rs
      else map (\<lambda>i. \<lparr>out_nazwaObiektu = nazwaObiektu r, out_kategoria = kategoria r,
                      out_nazwa = nazwa r, adresIP = numberToIp (ip + int i),
                      maska = cidrToDecimal m, brama = gateway, serwerNTP = gateway\<rparr>)
             [0..<nat (ilosc r)]
           @ expectedUnits m gateway (ip + int (nat (ilosc r))) rs)"

text \<open>
  The order the specification gives for the classifier: the rows without a class or of
  class \<open>brak\<close>, then the \<open>lan\<close> rows, then the \<open>lanz\<close> rows grouped by object name (the
  groups in the order in which their names first occur; in a group the rows matching the
  first marker, then those matching the second, then the rest), then the \<open>lanz1\<close> rows.
  It is a reordering: every row of a group is in exactly one of the three subgroups, a row
  that matches both markers in the first.
\<close>

definition keysInOrder :: "'a list \<Rightarrow> 'a list" where
  "keysInOrder ks = rev (remdups (rev ks))"

definition expectedOrder :: "row list \<Rightarrow> row list" where
  "expectedOrder csvRows =
     (let lanz = filter (\<lambda>r. klasa r = ''lanz'') csvRows
      in filter (\<lambda>r. klasa r = [] \<or> klasa r = ''brak'') csvRows
         @ filter (\<lambda>r. klasa r = ''lan'') csvRows
         @ concat (map (\<lambda>k. let grupa = filter (\<lambda>r. nazwaObiektu r = k) lanz
                             in filter (\<lambda>r. includes_str (nazwa r) ''WV-U1532LA'') grupa
                                @ filter (\<lambda>r. \<not> includes_str (nazwa r) ''WV-U1532LA''
                                             \<and> includes_str (nazwa r) ''WV-S1536LTN'') grupa
                                @ filter (\<lambda>r. \<not> includes_str (nazwa r) ''WV-U1532LA''
                                             \<and> \<not> includes_str (nazwa r) ''WV-S1536LTN'') grupa)
                   (keysInOrder (map nazwaObiektu lanz)))
         @ filter (\<lambda>r. klasa r = ''lanz1'') csvRows)"

text \<open>The object \<open>grupyLanz\<close> after the rows \<open>ps\<close>, when creation order is first occurrence.\<close>

definition groupsOf :: "row list \<Rightarrow> row list js_object" where
  "groupsOf ps = map (\<lambda>k. (k, filter (\<lambda>r. nazwaObiektu r = k) ps)) (keysInOrder (map nazwaObiektu ps))"


section \<open>Concrete inputs for the examples\<close>

definition wholeSpace :: reservation where
  "wholeSpace =
     \<lparr>network = ''0.0.0.0'', mask_len = 0, rangeStart = ''0.0.0.1'',
      rangeEnd = ''255.255.255.254'', assignedTo = ''Adresacja_all.csv''\<rparr>"

text \<open>A library whose parser reads every non-empty text as the registry given.\<close>

definition libWith :: "reservation list \<Rightarrow> builtins" where
  "libWith registry =
     \<lparr>JSON_parse = (\<lambda>s. if s = [] then Inl SyntaxError else Inr registry),
      JSON_stringify = (\<lambda>rs. ''[...]'')\<rparr>"

definition csv0 :: csv_builtins where
  "csv0 = \<lparr>csv_stringify = (\<lambda>rs. ''...''), path_join = (\<lambda>d f. d @ ''/'' @ f)\<rparr>"

definition fsEmpty :: filesystem where
  "fsEmpty = (\<lambda>p. None)"

definition fsData :: filesystem where
  "fsData = (\<lambda>p. if p = ''DATA.json'' then Some (File True True ''[...]'') else None)"

definition mkRow :: "string \<Rightarrow> string \<Rightarrow> string \<Rightarrow> int \<Rightarrow> string \<Rightarrow> row" where
  "mkRow obj kat naz il kl =
     \<lparr>nazwaObiektu = obj, kategoria = kat, nazwa = naz, ilosc = il, klasa = kl\<rparr>"

definition cfgOff :: config where
  "cfgOff = \<lparr>lprEnabled = None, redLightEnabled = None\<rparr>"

section \<open>Properties of the JavaScript primitives\<close>

lemma ToInt32_mod: "ToInt32 x mod 4294967296 = x mod 4294967296"
  using take_bit_signed_take_bit [of 32 31 x] by (simp add: ToInt32_def take_bit_eq_mod)

lemma ToInt32_id: "- 2147483648 \<le> x \<Longrightarrow> x < 2147483648 \<Longrightarrow> ToInt32 x = x"
  by (simp add: ToInt32_def signed_take_bit_int_eq_self)

lemma ToUint32_mod: "ToUint32 x = x mod 4294967296"
  by (simp add: ToUint32_def take_bit_eq_mod)

lemma ushr_0: "ushr x 0 = x mod 4294967296"
  by (simp add: ushr_def ToUint32_mod)

lemma ushr_div: "ushr x k = (x mod 4294967296) div 2 ^ (k mod 32)"
  by (simp add: ushr_def ToUint32_mod drop_bit_eq_div)

lemma band_255: "band x 255 = x mod 256"
proof -
  have m: "(255::int) = Bit_Operations.mask 8"
    by (simp add: mask_eq_exp_minus_1)
  have "band x 255 = ToInt32 x AND 255"
    by (simp add: band_def ToInt32_id)
  also have "\<dots> = take_bit 8 (signed_take_bit 31 x)"
    by (simp only: m take_bit_eq_mask ToInt32_def)
  also have "\<dots> = take_bit 8 x"
    by (simp add: take_bit_signed_take_bit)
  finally show ?thesis
    by (simp add: take_bit_eq_mod)
qed

lemma shl8_mod: "shl x 8 mod 4294967296 = (x * 256) mod 4294967296"
proof -
  have "shl x 8 mod 4294967296 = (ToInt32 x * 256) mod 4294967296"
    by (simp add: shl_def ToInt32_mod push_bit_eq_mult)
  also have "\<dots> = ((ToInt32 x mod 4294967296) * 256) mod 4294967296"
    by (simp add: mod_mult_left_eq)
  also have "\<dots> = (x * 256) mod 4294967296"
    by (simp only: ToInt32_mod mod_mult_left_eq)
  finally show ?thesis .
qed

lemma shl8_add_mod: "(shl x 8 + d) mod 4294967296 = (x * 256 + d) mod 4294967296"
proof -
  have "(shl x 8 + d) mod 4294967296 = (shl x 8 mod 4294967296 + d) mod 4294967296"
    by (simp add: mod_add_left_eq)
  also have "\<dots> = ((x * 256) mod 4294967296 + d) mod 4294967296"
    by (simp only: shl8_mod)
  also have "\<dots> = (x * 256 + d) mod 4294967296"
    by (simp add: mod_add_left_eq)
  finally show ?thesis .
qed

lemma shl8_small: "0 \<le> x \<Longrightarrow> x < 8388608 \<Longrightarrow> shl x 8 = x * 256"
  by (simp add: shl_def push_bit_eq_mult ToInt32_id)

lemma octets_sum:
  fixes n :: int
  assumes "0 \<le> n" "n < 4294967296"
  shows "((((n div 16777216) mod 256) * 256 + (n div 65536) mod 256) * 256
            + (n div 256) mod 256) * 256 + n mod 256 = n"
proof -
  define q1 where "q1 = n div 256"
  define q2 where "q2 = q1 div 256"
  define q3 where "q3 = q2 div 256"
  have d16: "n div 65536 = q2"
    using zdiv_zmult2_eq [of 256 n 256] by (simp add: q1_def q2_def)
  have d24: "n div 16777216 = q3"
    using zdiv_zmult2_eq [of 256 n 65536] by (simp add: d16 q3_def)
  have "0 \<le> q3" "q3 < 256"
    using assms d24 [symmetric] by simp_all
  then have m3: "q3 mod 256 = q3"
    by simp
  have e2: "q3 * 256 + q2 mod 256 = q2"
    by (simp add: q3_def)
  have e1: "q2 * 256 + q1 mod 256 = q1"
    by (simp add: q2_def)
  have e0: "q1 * 256 + n mod 256 = n"
    by (simp add: q1_def)
  show ?thesis
    by (simp only: d16 d24 m3 e2 e1 e0 q1_def [symmetric])
qed

subsection \<open>Decimal text and \<open>parseInt\<close>\<close>

lemma isRadixDigit_10: "isRadixDigit 10 c \<longleftrightarrow> 48 \<le> (of_char c :: int) \<and> (of_char c :: int) \<le> 57"
  by (auto simp: isRadixDigit_def digitVal_def Let_def)

lemma digitVal_dec: "isRadixDigit 10 c \<Longrightarrow> digitVal c = Some (of_char c - 48)"
  by (simp add: isRadixDigit_10 digitVal_def)

lemma of_char_digit_char: "0 \<le> d \<Longrightarrow> d < 10 \<Longrightarrow> (of_char (digit_char d) :: int) = 48 + d"
  by (simp add: digit_char_def)

lemma isRadixDigit_digit_char: "0 \<le> d \<Longrightarrow> d < 10 \<Longrightarrow> isRadixDigit 10 (digit_char d)"
  by (simp add: isRadixDigit_10 of_char_digit_char)

lemma digitVal_digit_char: "0 \<le> d \<Longrightarrow> d < 10 \<Longrightarrow> digitVal (digit_char d) = Some d"
  by (simp add: digitVal_dec isRadixDigit_digit_char of_char_digit_char)

lemma decimal_digits: "0 \<le> n \<Longrightarrow> list_all (isRadixDigit 10) (decimal n)"
proof (induction n rule: decimal.induct)
  case (1 n)
  show ?case
  proof (cases "n < 10")
    case True
    with "1.prems" show ?thesis
      by (simp add: decimal.simps [of n] isRadixDigit_digit_char)
  next
    case False
    then have "0 \<le> n div 10" by simp
    with False "1.IH" have "list_all (isRadixDigit 10) (decimal (n div 10))" by simp
    moreover have "isRadixDigit 10 (digit_char (n mod 10))"
      by (simp add: isRadixDigit_digit_char)
    ultimately show ?thesis
      using False by (simp add: decimal.simps [of n])
  qed
qed

lemma decimal_nonempty: "decimal n \<noteq> []"
  by (simp add: decimal.simps [of n])

lemma parseDigits_snoc:
  "list_all (isRadixDigit 10) ds \<Longrightarrow> 0 \<le> d \<Longrightarrow> d < 10 \<Longrightarrow>
     parseDigits 10 acc (ds @ [digit_char d]) = parseDigits 10 acc ds * 10 + d"
proof (induction ds arbitrary: acc)
  case Nil
  then show ?case by (simp add: digitVal_digit_char)
next
  case (Cons c cs)
  from Cons.prems have c: "isRadixDigit 10 c" and cs: "list_all (isRadixDigit 10) cs"
    by simp_all
  from c have lt: "of_char c - 48 < (10::int)"
    by (simp add: isRadixDigit_10)
  show ?case
    using Cons.IH [OF cs Cons.prems(2,3)] lt by (simp add: digitVal_dec [OF c])
qed

lemma parseDigits_decimal: "0 \<le> n \<Longrightarrow> parseDigits 10 0 (decimal n) = n"
proof (induction n rule: decimal.induct)
  case (1 n)
  show ?case
  proof (cases "n < 10")
    case True
    with "1.prems" show ?thesis
      by (simp add: decimal.simps [of n] digitVal_digit_char)
  next
    case False
    then have nn: "0 \<le> n div 10" by simp
    with False "1.IH" have ih: "parseDigits 10 0 (decimal (n div 10)) = n div 10" by simp
    have "parseDigits 10 0 (decimal (n div 10) @ [digit_char (n mod 10)])
            = parseDigits 10 0 (decimal (n div 10)) * 10 + n mod 10"
      by (rule parseDigits_snoc) (simp_all add: decimal_digits nn)
    then show ?thesis
      using False ih by (simp add: decimal.simps [of n])
  qed
qed

lemma startsWith_digit:
  "isRadixDigit 10 c \<Longrightarrow> \<not> startsWith (c # cs) ''-'' \<and> \<not> startsWith (c # cs) ''+''"
  by (auto simp: isRadixDigit_10)

lemma startsWith_0x:
  "list_all (isRadixDigit 10) s \<Longrightarrow> \<not> startsWith s ''0x'' \<and> \<not> startsWith s ''0X''"
proof (cases s)
  case Nil
  then show ?thesis by simp
next
  case (Cons c cs)
  assume a: "list_all (isRadixDigit 10) s"
  show ?thesis
  proof (cases cs)
    case Nil
    with Cons show ?thesis by simp
  next
    case (Cons c' cs')
    with a \<open>s = c # cs\<close> have "isRadixDigit 10 c'" by simp
    then have "c' \<noteq> CHR ''x''" "c' \<noteq> CHR ''X''"
      by (auto simp: isRadixDigit_10)
    with Cons \<open>s = c # cs\<close> show ?thesis by simp
  qed
qed

lemma parseInt_digits:
  assumes "s \<noteq> []" "list_all (isRadixDigit 10) s"
  shows "parseInt s = Some (parseDigits 10 0 s)"
proof -
  from assms obtain c cs where s: "s = c # cs" and c: "isRadixDigit 10 c"
    by (cases s) auto
  from c have "\<not> isStrWhiteSpace c"
    by (auto simp: isStrWhiteSpace_def isRadixDigit_10)
  then have dw: "dropWhile isStrWhiteSpace s = s"
    by (simp add: s)
  have sg: "\<not> startsWith s ''-''" "\<not> startsWith s ''+''"
    using startsWith_digit [OF c] by (simp_all add: s)
  have hx: "\<not> startsWith s ''0x''" "\<not> startsWith s ''0X''"
    using startsWith_0x [OF assms(2)] by simp_all
  have "parseInt s =
          (case s of [] \<Rightarrow> None
           | c # cs \<Rightarrow> if isRadixDigit 10 c then Some (1 * parseDigits 10 0 s) else None)"
    by (simp only: parseInt_def Let_def dw sg hx if_False simp_thms)
  then show ?thesis
    using c by (simp add: s)
qed

lemma parseInt_decimal: "0 \<le> n \<Longrightarrow> parseInt (decimal n) = Some n"
  by (simp add: parseInt_digits decimal_nonempty decimal_digits parseDigits_decimal)

lemma dot_not_digit: "list_all (isRadixDigit 10) s \<Longrightarrow> CHR ''.'' \<notin> set s"
  by (auto simp: list_all_iff isRadixDigit_10)

lemma split_no_sep: "sep \<notin> set a \<Longrightarrow> split sep a = [a]"
  by (induction a) auto

lemma split_append: "sep \<notin> set a \<Longrightarrow> split sep (a @ sep # rest) = a # split sep rest"
  by (induction a) auto

subsection \<open>Dotted quads\<close>

lemma Number_toString_nonneg: "0 \<le> i \<Longrightarrow> Number_toString i = decimal i"
  by (simp add: Number_toString_def)

lemma numberToIp_octets:
  "numberToIp n =
     decimal ((n mod 4294967296) div 16777216 mod 256) @ ''.'' @
     decimal ((n mod 4294967296) div 65536 mod 256) @ ''.'' @
     decimal ((n mod 4294967296) div 256 mod 256) @ ''.'' @
     decimal ((n mod 4294967296) mod 256)"
proof -
  have "n mod 256 = (n mod 4294967296) mod 256"
    by (simp add: mod_mod_cancel)
  then show ?thesis
    by (simp add: numberToIp_def band_255 ushr_div Number_toString_nonneg)
qed

lemma numberToIp_mod: "numberToIp (n mod 4294967296) = numberToIp n"
  by (simp add: numberToIp_octets)

lemma split_quad:
  assumes "0 \<le> a" "0 \<le> b" "0 \<le> c" "0 \<le> d"
  shows "split CHR ''.'' (decimal a @ ''.'' @ decimal b @ ''.'' @ decimal c @ ''.'' @ decimal d)
           = [decimal a, decimal b, decimal c, decimal d]"
proof -
  have nd: "\<And>x. 0 \<le> x \<Longrightarrow> CHR ''.'' \<notin> set (decimal x)"
    by (simp add: dot_not_digit decimal_digits)
  show ?thesis
    using assms by (simp add: split_append split_no_sep nd)
qed

lemma fold_quad:
  assumes "0 \<le> a" "a < 256" "0 \<le> b" "b < 256" "0 \<le> c" "c < 256" "0 \<le> d"
  shows "foldl ipStep (Some 0) [decimal a, decimal b, decimal c, decimal d]
           = Some (shl ((a * 256 + b) * 256 + c) 8 + d)"
proof -
  have s0: "shl 0 8 = 0"
    by (simp add: shl8_small)
  have s1: "shl a 8 = a * 256"
    using assms by (simp add: shl8_small)
  have s2: "shl (a * 256 + b) 8 = (a * 256 + b) * 256"
    using assms by (simp add: shl8_small)
  show ?thesis
    using assms by (simp add: ipStep_def parseInt_decimal s0 s1 s2)
qed

lemma ipToNumber_quad:
  assumes "0 \<le> a" "a < 256" "0 \<le> b" "b < 256" "0 \<le> c" "c < 256" "0 \<le> d"
  shows "ipToNumber (decimal a @ ''.'' @ decimal b @ ''.'' @ decimal c @ ''.'' @ decimal d)
           = (((a * 256 + b) * 256 + c) * 256 + d) mod 4294967296"
proof -
  have "ipToNumber (decimal a @ ''.'' @ decimal b @ ''.'' @ decimal c @ ''.'' @ decimal d)
          = (shl ((a * 256 + b) * 256 + c) 8 + d) mod 4294967296"
    by (simp only: ipToNumber_def split_quad [OF assms(1,3,5,7)] fold_quad [OF assms]
          option.case ushr_0)
  also have "\<dots> = (((a * 256 + b) * 256 + c) * 256 + d) mod 4294967296"
    by (rule shl8_add_mod)
  finally show ?thesis .
qed

lemma ipToNumber_numberToIp_mod: "ipToNumber (numberToIp n) = n mod 4294967296"
proof -
  define N where "N = n mod 4294967296"
  have N: "0 \<le> N" "N < 4294967296"
    by (simp_all add: N_def)
  have "ipToNumber (numberToIp n)
          = (((N div 16777216 mod 256 * 256 + N div 65536 mod 256) * 256 + N div 256 mod 256) * 256
               + N mod 256) mod 4294967296"
    unfolding numberToIp_octets N_def [symmetric]
    by (rule ipToNumber_quad) simp_all
  also have "\<dots> = N mod 4294967296"
    by (simp only: octets_sum [OF N])
  finally show ?thesis
    using N by (simp add: N_def)
qed

lemma ipToNumber_range: "0 \<le> ipToNumber s \<and> ipToNumber s < 4294967296"
  by (simp add: ipToNumber_def ushr_0 split: option.split)

lemma numberToIp_ipToNumber_numberToIp: "numberToIp (ipToNumber (numberToIp n)) = numberToIp n"
  by (simp add: ipToNumber_numberToIp_mod numberToIp_mod)

text \<open>
  C9. For every 32-bit unsigned integer \<open>n\<close>, converting it to dotted form and back
  gives \<open>n\<close> again: \<open>ipToNumber(numberToIp(n)) == n\<close>.
\<close>

theorem round_trip_uint32:
  "0 \<le> n \<Longrightarrow> n < 4294967296 \<Longrightarrow> ipToNumber (numberToIp n) = n"
  by (simp add: ipToNumber_numberToIp_mod)

theorem round_trip_uint32_witness:
  "(0::int) \<le> 2886729728 \<and> (2886729728::int) < 4294967296
     \<and> ipToNumber (numberToIp 2886729728) = 2886729728"
  using round_trip_uint32 [of 2886729728] by simp

text \<open>The mask arithmetic on the examples of the specification.\<close>

lemma mask_arithmetic_examples:
  "hostsForMask 24 = 254 \<and> hostsForMask 30 = 2
   \<and> cidrToDecimal 24 = ''255.255.255.0'' \<and> cidrToDecimal 20 = ''255.255.240.0''"
  by code_simp

section \<open>The allocator's search\<close>

lemma isRangeAvailable_iff:
  "isRangeAvailable c m usedRanges \<longleftrightarrow>
     (\<forall>u \<in> set usedRanges. c + pow2 (32 - m) - 1 < firstAddress u \<or> lastAddress u < c)"
  by (induction usedRanges) (auto simp: Let_def firstAddress_def lastAddress_def)

lemma probe_None_iff:
  "probe c m usedRanges t = None \<longleftrightarrow>
     (\<forall>k < t. \<not> isRangeAvailable (c + int k * pow2 (32 - m)) m usedRanges)"
proof (induction t arbitrary: c)
  case 0
  then show ?case by simp
next
  case (Suc t)
  have "(\<forall>k < Suc t. \<not> isRangeAvailable (c + int k * pow2 (32 - m)) m usedRanges) \<longleftrightarrow>
        \<not> isRangeAvailable c m usedRanges
          \<and> (\<forall>k < t. \<not> isRangeAvailable (c + pow2 (32 - m) + int k * pow2 (32 - m)) m usedRanges)"
    (is "?L \<longleftrightarrow> ?R")
  proof
    assume l: ?L
    then have "\<not> isRangeAvailable (c + int 0 * pow2 (32 - m)) m usedRanges"
      by blast
    moreover have "\<not> isRangeAvailable (c + pow2 (32 - m) + int k * pow2 (32 - m)) m usedRanges"
      if "k < t" for k
      using l [rule_format, of "Suc k"] that by (simp add: algebra_simps)
    ultimately show ?R by simp
  next
    assume r: ?R
    show ?L
    proof (intro allI impI)
      fix k assume "k < Suc t"
      show "\<not> isRangeAvailable (c + int k * pow2 (32 - m)) m usedRanges"
      proof (cases k)
        case 0
        with r show ?thesis by simp
      next
        case (Suc j)
        with \<open>k < Suc t\<close> r have "\<not> isRangeAvailable (c + pow2 (32 - m) + int j * pow2 (32 - m)) m usedRanges"
          by simp
        with Suc show ?thesis by (simp add: algebra_simps)
      qed
    qed
  qed
  with Suc.IH [of "c + pow2 (32 - m)"] show ?case by simp
qed

lemma probe_Some:
  "probe c m usedRanges t = Some x \<Longrightarrow>
     \<exists>k < t. x = c + int k * pow2 (32 - m) \<and> isRangeAvailable x m usedRanges
        \<and> (\<forall>j < k. \<not> isRangeAvailable (c + int j * pow2 (32 - m)) m usedRanges)"
proof (induction t arbitrary: c)
  case 0
  then show ?case by simp
next
  case (Suc t)
  show ?case
  proof (cases "isRangeAvailable c m usedRanges")
    case True
    with Suc.prems have "x = c" by simp
    with True show ?thesis by (intro exI [of _ 0]) simp
  next
    case False
    with Suc.prems have "probe (c + pow2 (32 - m)) m usedRanges t = Some x" by simp
    from Suc.IH [OF this] obtain k where k: "k < t"
        "x = c + pow2 (32 - m) + int k * pow2 (32 - m)" "isRangeAvailable x m usedRanges"
        "\<forall>j < k. \<not> isRangeAvailable (c + pow2 (32 - m) + int j * pow2 (32 - m)) m usedRanges"
      by blast
    have "\<not> isRangeAvailable (c + int j * pow2 (32 - m)) m usedRanges" if "j < Suc k" for j
    proof (cases j)
      case 0
      with False show ?thesis by simp
    next
      case (Suc i)
      with that k(4) have "\<not> isRangeAvailable (c + pow2 (32 - m) + int i * pow2 (32 - m)) m usedRanges"
        by simp
      with Suc show ?thesis by (simp add: algebra_simps)
    qed
    with k(1-3) show ?thesis
      by (intro exI [of _ "Suc k"]) (simp add: algebra_simps)
  qed
qed

lemma probe_Some_ex:
  "k < t \<Longrightarrow> isRangeAvailable (c + int k * pow2 (32 - m)) m usedRanges \<Longrightarrow>
     \<exists>x. probe c m usedRanges t = Some x"
  using probe_None_iff [of c m usedRanges t] by (cases "probe c m usedRanges t") auto

lemma probe_first:
  assumes "k < t"
    and "isRangeAvailable (c + int k * pow2 (32 - m)) m usedRanges"
    and "\<forall>j < k. \<not> isRangeAvailable (c + int j * pow2 (32 - m)) m usedRanges"
  shows "probe c m usedRanges t = Some (c + int k * pow2 (32 - m))"
proof -
  from probe_Some_ex [OF assms(1,2)] obtain x where x: "probe c m usedRanges t = Some x"
    by blast
  from probe_Some [OF x] obtain k' where k': "k' < t" "x = c + int k' * pow2 (32 - m)"
      "isRangeAvailable x m usedRanges"
      "\<forall>j < k'. \<not> isRangeAvailable (c + int j * pow2 (32 - m)) m usedRanges"
    by blast
  have "\<not> k' < k"
    using assms(3) k'(2,3) by blast
  moreover have "\<not> k < k'"
    using assms(2) k'(4) by blast
  ultimately have "k' = k"
    by simp
  with x k'(2) show ?thesis
    by simp
qed

lemma scanMasks_Inl_iff:
  "scanMasks base m usedRanges = Inl e \<longleftrightarrow>
     e = PoolExhausted \<and>
     (\<forall>m'. m \<le> m' \<and> m' \<le> 30 \<longrightarrow> probe (ipToNumber base) m' usedRanges maxTries = None)"
proof (induction base m usedRanges rule: scanMasks.induct)
  case (1 base m usedRanges)
  show ?case
  proof (cases "m \<le> 30")
    case False
    then show ?thesis
      by (subst scanMasks.simps) auto
  next
    case le: True
    show ?thesis
    proof (cases "probe (ipToNumber base) m usedRanges maxTries")
      case (Some c)
      with le have "scanMasks base m usedRanges \<noteq> Inl e"
        by (subst scanMasks.simps) simp
      moreover from Some le have "\<not> (\<forall>m'. m \<le> m' \<and> m' \<le> 30 \<longrightarrow>
          probe (ipToNumber base) m' usedRanges maxTries = None)"
        by (intro notI) (drule spec [of _ m], simp)
      ultimately show ?thesis by simp
    next
      case None
      with le have eq: "scanMasks base m usedRanges = scanMasks base (m + 1) usedRanges"
        by (subst scanMasks.simps) simp
      have "(\<forall>m'. m \<le> m' \<and> m' \<le> 30 \<longrightarrow> probe (ipToNumber base) m' usedRanges maxTries = None)
              \<longleftrightarrow> (\<forall>m'. m + 1 \<le> m' \<and> m' \<le> 30 \<longrightarrow>
                     probe (ipToNumber base) m' usedRanges maxTries = None)"
      proof (intro iffI allI impI)
        fix m' assume a: "\<forall>m'. m + 1 \<le> m' \<and> m' \<le> 30 \<longrightarrow>
            probe (ipToNumber base) m' usedRanges maxTries = None" and b: "m \<le> m' \<and> m' \<le> 30"
        show "probe (ipToNumber base) m' usedRanges maxTries = None"
        proof (cases "m' = m")
          case True
          with None show ?thesis by simp
        next
          case False
          with b have "m + 1 \<le> m' \<and> m' \<le> 30" by simp
          with a show ?thesis by blast
        qed
      qed simp
      with "1.IH" [OF le None] eq show ?thesis by simp
    qed
  qed
qed

lemma scanMasks_Inr:
  "scanMasks base m usedRanges = Inr r \<Longrightarrow>
     m \<le> mask_len r \<and> mask_len r \<le> 30 \<and>
     (\<exists>c. probe (ipToNumber base) (mask_len r) usedRanges maxTries = Some c
          \<and> network r = numberToIp c) \<and>
     (\<forall>m'. m \<le> m' \<and> m' < mask_len r \<longrightarrow>
          probe (ipToNumber base) m' usedRanges maxTries = None)"
proof (induction base m usedRanges rule: scanMasks.induct)
  case (1 base m usedRanges)
  from "1.prems" have le: "m \<le> 30"
    by (subst (asm) scanMasks.simps) (auto split: if_splits)
  show ?case
  proof (cases "probe (ipToNumber base) m usedRanges maxTries")
    case (Some c)
    with le "1.prems" have "r = \<lparr>network = numberToIp c, mask_len = m\<rparr>"
      by (subst (asm) scanMasks.simps) simp
    with Some le show ?thesis by auto
  next
    case None
    with le "1.prems" have "scanMasks base (m + 1) usedRanges = Inr r"
      by (subst (asm) scanMasks.simps) simp
    from "1.IH" [OF le None this]
    have ih: "m + 1 \<le> mask_len r" "mask_len r \<le> 30"
        "\<exists>c. probe (ipToNumber base) (mask_len r) usedRanges maxTries = Some c
            \<and> network r = numberToIp c"
        "\<forall>m'. m + 1 \<le> m' \<and> m' < mask_len r \<longrightarrow>
            probe (ipToNumber base) m' usedRanges maxTries = None"
      by auto
    have "probe (ipToNumber base) m' usedRanges maxTries = None"
      if "m \<le> m' \<and> m' < mask_len r" for m'
    proof (cases "m' = m")
      case True
      with None show ?thesis by simp
    next
      case False
      with that have "m + 1 \<le> m' \<and> m' < mask_len r" by simp
      with ih(4) show ?thesis by blast
    qed
    with ih(1-3) show ?thesis by simp
  qed
qed

lemma findAvailableRange_error: "findAvailableRange base n usedRanges = Inl e \<Longrightarrow> e = PoolExhausted"
  by (auto simp: findAvailableRange_def scanMasks_Inl_iff split: option.splits)

lemma ceilLog2_bounds:
  "1 \<le> x \<Longrightarrow> 0 \<le> ceilLog2 x \<and> x \<le> 2 ^ nat (ceilLog2 x)
     \<and> (1 < x \<longrightarrow> 1 \<le> ceilLog2 x \<and> 2 ^ nat (ceilLog2 x - 1) < x)"
proof (induction x rule: ceilLog2.induct)
  case (1 x)
  show ?case
  proof (cases "x \<le> 1")
    case True
    with "1.prems" have "x = 1" by simp
    then show ?thesis
      by (simp add: ceilLog2.simps [of 1])
  next
    case False
    define y where "y = (x + 1) div 2"
    define c where "c = ceilLog2 y"
    from False have y1: "1 \<le> y" and xy: "x \<le> 2 * y" and yx: "2 * y \<le> x + 1"
      by (simp_all add: y_def)
    from "1.IH" [OF False] y1
    have ih: "0 \<le> c" "y \<le> 2 ^ nat c" "1 < y \<longrightarrow> 1 \<le> c \<and> 2 ^ nat (c - 1) < y"
      by (simp_all add: y_def c_def)
    have cl: "ceilLog2 x = 1 + c"
      using False by (simp add: ceilLog2.simps [of x] y_def c_def)
    have p: "(2::int) ^ nat (1 + c) = 2 * 2 ^ nat c"
      using ih(1) by (simp add: nat_add_distrib)
    have up: "x \<le> 2 ^ nat (1 + c)"
      using xy ih(2) p by simp
    have lo: "2 ^ nat c < x"
    proof (cases "1 < y")
      case True
      with ih(3) have c1: "1 \<le> c" and l: "2 ^ nat (c - 1) < y" by simp_all
      from c1 have "nat c = Suc (nat (c - 1))" by simp
      then have "(2::int) ^ nat c = 2 * 2 ^ nat (c - 1)" by simp
      with l yx show ?thesis by simp
    next
      case False
      with y1 have "y = 1" by simp
      then have "c = 0"
        by (simp add: c_def ceilLog2.simps [of 1])
      with \<open>\<not> x \<le> 1\<close> show ?thesis by simp
    qed
    from ih(1) up lo show ?thesis
      by (simp add: cl)
  qed
qed

lemma ceilLog2_ceiling_log:
  assumes "1 \<le> x"
  shows "ceilLog2 x = \<lceil>log 2 (real_of_int x)\<rceil>"
proof (cases "x = 1")
  case True
  then show ?thesis
    by (simp add: ceilLog2.simps [of 1])
next
  case False
  with assms have x: "1 < x" by simp
  define c where "c = ceilLog2 x"
  from ceilLog2_bounds [OF assms] x have b: "1 \<le> c" "x \<le> 2 ^ nat c" "2 ^ nat (c - 1) < x"
    by (simp_all add: c_def)
  have up: "real_of_int x \<le> 2 powr real_of_int c"
  proof -
    from b(2) have "real_of_int x \<le> real_of_int (2 ^ nat c)"
      by (simp only: of_int_le_iff)
    also have "\<dots> = 2 powr real (nat c)"
      by (simp add: powr_realpow)
    also have "real (nat c) = real_of_int c"
      using b(1) by simp
    finally show ?thesis .
  qed
  have lo: "2 powr (real_of_int c - 1) < real_of_int x"
  proof -
    have "2 powr (real_of_int c - 1) = 2 powr real (nat (c - 1))"
      using b(1) by simp
    also have "\<dots> = real_of_int (2 ^ nat (c - 1))"
      by (simp add: powr_realpow)
    also from b(3) have "\<dots> < real_of_int x"
      by (simp only: of_int_less_iff)
    finally show ?thesis .
  qed
  from x have pos: "0 < real_of_int x" by simp
  have "log 2 (real_of_int x) \<le> real_of_int c"
    using up pos by (simp add: log_le_iff)
  moreover have "real_of_int c - 1 < log 2 (real_of_int x)"
    using lo pos by (simp add: less_log_iff)
  ultimately have "\<lceil>log 2 (real_of_int x)\<rceil> = c"
    by (intro ceiling_unique) simp_all
  then show ?thesis
    by (simp add: c_def)
qed

text \<open>The start mask, for requests in the range where the logarithm is exact enough.\<close>

lemma findSmallestMask_Some:
  "- 1 \<le> n \<Longrightarrow> n \<le> 281474976710654 \<Longrightarrow> findSmallestMask n = Some (32 - ceilLog2 (n + 2))"
  by (simp add: findSmallestMask_def)

lemma findSmallestMask_le_30:
  "1 \<le> n \<Longrightarrow> n \<le> 281474976710654 \<Longrightarrow> findSmallestMask n = Some m0 \<Longrightarrow> m0 \<le> 30"
proof -
  assume n: "1 \<le> n" and hi: "n \<le> 281474976710654" and m0: "findSmallestMask n = Some m0"
  define c where "c = ceilLog2 (n + 2)"
  from n ceilLog2_bounds [of "n + 2"] have b: "0 \<le> c" "n + 2 \<le> 2 ^ nat c"
    by (simp_all add: c_def)
  have "2 \<le> c"
  proof (rule ccontr)
    assume "\<not> 2 \<le> c"
    with b(1) have "c = 0 \<or> c = 1" by auto
    with b(2) n show False by auto
  qed
  with m0 n hi show ?thesis
    by (simp add: findSmallestMask_def c_def)
qed

lemma hostsForMask_ge_iff:
  assumes n: "1 \<le> n" and hi: "n \<le> 281474976710654" and m0: "findSmallestMask n = Some m0"
  shows "n \<le> hostsForMask m \<longleftrightarrow> m \<le> m0"
proof -
  define c where "c = ceilLog2 (n + 2)"
  from n ceilLog2_bounds [of "n + 2"]
  have b: "0 \<le> c" "n + 2 \<le> 2 ^ nat c" "1 \<le> c" "2 ^ nat (c - 1) < n + 2"
    by (simp_all add: c_def)
  from m0 n hi have m0c: "m0 = 32 - c"
    by (simp add: findSmallestMask_def c_def)
  show ?thesis
  proof
    assume le: "m \<le> m0"
    with m0c b(1) have "nat c \<le> nat (32 - m)" "0 \<le> 32 - m" by simp_all
    then have "(2::int) ^ nat c \<le> 2 ^ nat (32 - m)"
      by (simp add: power_increasing)
    with b(2) have "n + 2 \<le> 2 ^ nat (32 - m)"
      by linarith
    with \<open>0 \<le> 32 - m\<close> show "n \<le> hostsForMask m"
      by (simp add: hostsForMask_def pow2_def)
  next
    assume h: "n \<le> hostsForMask m"
    show "m \<le> m0"
    proof (rule ccontr)
      assume "\<not> m \<le> m0"
      with m0c have lt: "32 - m \<le> c - 1" by simp
      have "pow2 (32 - m) < n + 2"
      proof (cases "32 - m < 0")
        case True
        with n show ?thesis by (simp add: pow2_def)
      next
        case False
        with lt have "nat (32 - m) \<le> nat (c - 1)" by simp
        then have "(2::int) ^ nat (32 - m) \<le> 2 ^ nat (c - 1)"
          by (simp add: power_increasing)
        with b(4) have "2 ^ nat (32 - m) < n + 2"
          by linarith
        with False show ?thesis by (simp add: pow2_def)
      qed
      with h show False by (simp add: hostsForMask_def)
    qed
  qed
qed

text \<open>
  The search fails exactly when the test of the code, \<open>isRangeAvailable\<close> on the candidate
  number, fails for all 512 candidates at every mask from the start mask to 30; and a
  request whose search fails ends with that error and leaves the file system as it was.
\<close>

lemma findAvailableRange_fails_iff_probes:
  "findAvailableRange base n usedRanges = Inl PoolExhausted \<longleftrightarrow>
      (\<forall>m k. (\<exists>m0. findSmallestMask n = Some m0 \<and> m0 \<le> m) \<and> m \<le> 30 \<and> k < 512 \<longrightarrow>
          \<not> isRangeAvailable (ipToNumber base + int k * pow2 (32 - m)) m usedRanges)"
proof (cases "findSmallestMask n")
  case None
  then show ?thesis
    by (simp add: findAvailableRange_def)
next
  case (Some m0)
  then show ?thesis
    by (simp add: findAvailableRange_def scanMasks_Inl_iff probe_None_iff maxTries_def) blast
qed

lemma generateAdresacja_PoolExhausted:
  assumes "sortCsvRows csvRows = Inr sortedRows"
    and "loadUsedRanges lib fs dataJsonPath = Inr registry"
    and "findAvailableRange baseNetwork (withBuffer (sumIlosc sortedRows)) registry = Inl PoolExhausted"
  shows "generateAdresacja lib csv fs csvRows fileBase dataJsonPath outputDir cfg
          = (Inl PoolExhausted, fs)"
  using assms by (simp add: generateAdresacja_def Let_def)

text \<open>
  C1. Every range that \<open>findAvailableRange\<close> returns should be disjoint from every
  reservation in the registry at the time of the call, so that successive allocations
  keep the registry pairwise disjoint. The code breaks this for large requests. A
  candidate block is checked as the number \<open>candidateNetNum\<close>, which may have run past
  \<open>2 ^ 32\<close>, but is returned as \<open>numberToIp(candidateNetNum)\<close>, which wraps around. Three
  successive requests for 2147483646 hosts, starting from the empty registry: the first
  gets \<open>172.16.0.0/1\<close>, the second \<open>44.16.0.0/1\<close> (checked at 5034213376), and the third,
  against a registry that is pairwise disjoint, gets \<open>44.16.0.0/1\<close> again.
\<close>

theorem findAvailableRange_returns_reserved_block:
  "findAvailableRange baseNetwork 2147483646 ([] :: rangeInfo list)
     = Inr \<lparr>network = ''172.16.0.0'', mask_len = 1\<rparr>
   \<and> findAvailableRange baseNetwork 2147483646 [\<lparr>network = ''172.16.0.0'', mask_len = 1\<rparr>]
     = Inr \<lparr>network = ''44.16.0.0'', mask_len = 1\<rparr>
   \<and> pairwiseDisjoint
         [\<lparr>network = ''172.16.0.0'', mask_len = 1\<rparr>, \<lparr>network = ''44.16.0.0'', mask_len = 1\<rparr>]
   \<and> findAvailableRange baseNetwork 2147483646
         [\<lparr>network = ''172.16.0.0'', mask_len = 1\<rparr>, \<lparr>network = ''44.16.0.0'', mask_len = 1\<rparr>]
     = Inr \<lparr>network = ''44.16.0.0'', mask_len = 1\<rparr>
   \<and> intersects \<lparr>network = ''44.16.0.0'', mask_len = 1\<rparr> \<lparr>network = ''44.16.0.0'', mask_len = 1\<rparr>
   \<and> \<not> pairwiseDisjoint
         [\<lparr>network = ''172.16.0.0'', mask_len = 1\<rparr>, \<lparr>network = ''44.16.0.0'', mask_len = 1\<rparr>,
          \<lparr>network = ''44.16.0.0'', mask_len = 1\<rparr>]"
  by code_simp

text \<open>
  Where no candidate can pass \<open>2 ^ 32\<close> the invariant holds. From the base network
  \<open>172.16.0.0\<close> that is so for every request of at most 2097150 hosts (masks 11 to 30):
  the returned range meets no reservation of the registry, and a pairwise disjoint
  registry stays so when the reservation is appended.
\<close>

lemma ipToNumber_baseNetwork: "ipToNumber baseNetwork = 2886729728"
  by code_simp

lemma intersects_sym: "intersects r u = intersects u r"
  by (auto simp: intersects_def)

lemma pairwiseDisjoint_snoc:
  "pairwiseDisjoint (rs @ [r]) \<longleftrightarrow> pairwiseDisjoint rs \<and> list_all (\<lambda>u. \<not> intersects u r) rs"
  by (induction rs) auto

lemma findSmallestMask_ge_11:
  assumes "1 \<le> n" "n \<le> 2097150" "findSmallestMask n = Some m0"
  shows "11 \<le> m0"
proof -
  define c where "c = ceilLog2 (n + 2)"
  from assms(1) ceilLog2_bounds [of "n + 2"] have b: "1 \<le> c" "2 ^ nat (c - 1) < n + 2"
    by (simp_all add: c_def)
  from b(2) assms(2) have "(2::int) ^ nat (c - 1) < 2 ^ 21"
    by simp
  then have "nat (c - 1) < 21"
    by (simp only: power_strict_increasing_iff [of 2] one_less_numeral_iff semiring_norm)
  with b(1) have "c \<le> 21"
    by simp
  with assms show ?thesis
    by (simp add: findSmallestMask_def c_def)
qed

lemma findAvailableRange_no_wrap:
  assumes n: "1 \<le> n" "n \<le> 2097150"
    and r: "findAvailableRange baseNetwork n usedRanges = Inr r"
  shows "11 \<le> mask_len r \<and> mask_len r \<le> 30
     \<and> isRangeAvailable (firstAddress r) (mask_len r) usedRanges"
proof -
  from n obtain m0 where m0: "findSmallestMask n = Some m0"
    by (simp add: findSmallestMask_def)
  from n m0 have ge: "11 \<le> m0"
    by (rule findSmallestMask_ge_11)
  from r m0 have "scanMasks baseNetwork m0 usedRanges = Inr r"
    by (simp add: findAvailableRange_def)
  from scanMasks_Inr [OF this] obtain c where
      m: "m0 \<le> mask_len r" "mask_len r \<le> 30"
      and c: "probe (ipToNumber baseNetwork) (mask_len r) usedRanges maxTries = Some c"
      and net: "network r = numberToIp c"
    by blast
  from probe_Some [OF c] obtain k where
      k: "k < maxTries" "c = ipToNumber baseNetwork + int k * pow2 (32 - mask_len r)"
      and av: "isRangeAvailable c (mask_len r) usedRanges"
    by blast
  from m ge have e: "nat (32 - mask_len r) \<le> 21" "0 \<le> 32 - mask_len r"
    by simp_all
  then have "(2::int) ^ nat (32 - mask_len r) \<le> 2 ^ 21"
    by (intro power_increasing) simp_all
  with e(2) have p: "0 \<le> pow2 (32 - mask_len r)" "pow2 (32 - mask_len r) \<le> 2097152"
    by (simp_all add: pow2_def)
  from k(1) have "int k \<le> 511"
    by (simp add: maxTries_def)
  with p mult_mono [of "int k" 511 "pow2 (32 - mask_len r)" 2097152]
  have "int k * pow2 (32 - mask_len r) \<le> 1071644672"
    by simp
  moreover from p have "0 \<le> int k * pow2 (32 - mask_len r)"
    by simp
  ultimately have "0 \<le> c" "c < 4294967296"
    using k(2) by (simp_all add: ipToNumber_baseNetwork)
  then have "firstAddress r = c"
    by (simp add: firstAddress_def net ipToNumber_numberToIp_mod)
  with av m ge show ?thesis
    by simp
qed

lemma registry_stays_disjoint:
  assumes "1 \<le> n" "n \<le> 2097150"
    and "findAvailableRange baseNetwork n usedRanges = Inr r"
    and "network entry = network r" "mask_len entry = mask_len r"
  shows "list_all (\<lambda>u. \<not> intersects u r) usedRanges"
    and "pairwiseDisjoint usedRanges \<Longrightarrow> pairwiseDisjoint (usedRanges @ [entry])"
proof -
  from findAvailableRange_no_wrap [OF assms(1-3)]
  have "isRangeAvailable (firstAddress r) (mask_len r) usedRanges"
    by simp
  then have "\<forall>u \<in> set usedRanges. lastAddress r < firstAddress u \<or> lastAddress u < firstAddress r"
    by (simp add: isRangeAvailable_iff lastAddress_def firstAddress_def)
  then show d: "list_all (\<lambda>u. \<not> intersects u r) usedRanges"
    by (auto simp: list_all_iff intersects_def)
  have "intersects u entry = intersects u r" for u :: "'a rangeInfo_scheme"
    using assms(4,5) by (simp add: intersects_def firstAddress_def lastAddress_def)
  with d show "pairwiseDisjoint usedRanges \<Longrightarrow> pairwiseDisjoint (usedRanges @ [entry])"
    by (simp add: pairwiseDisjoint_snoc)
qed

text \<open>
  The bound is sharp: a request for 2097151 hosts starts at mask 10, and against a
  registry that holds \<open>128.0.0.0/1\<close> the first free candidate is the 337th, checked at
  4296015872 and returned as \<open>0.16.0.0/10\<close>; the next such request gets the same block.
\<close>

lemma findAvailableRange_wraps_at_mask_10:
  "findAvailableRange baseNetwork 2097151 [\<lparr>network = ''128.0.0.0'', mask_len = 1\<rparr>]
     = Inr \<lparr>network = ''0.16.0.0'', mask_len = 10\<rparr>
   \<and> pairwiseDisjoint [\<lparr>network = ''128.0.0.0'', mask_len = 1\<rparr>, \<lparr>network = ''0.16.0.0'', mask_len = 10\<rparr>]
   \<and> findAvailableRange baseNetwork 2097151
         [\<lparr>network = ''128.0.0.0'', mask_len = 1\<rparr>, \<lparr>network = ''0.16.0.0'', mask_len = 10\<rparr>]
     = Inr \<lparr>network = ''0.16.0.0'', mask_len = 10\<rparr>"
  by code_simp

text \<open>
  When mask \<open>m0\<close> has no free block among its 512 candidates the search goes on with larger
  masks, whose blocks are too small for the request: against a registry that holds
  \<open>172.16.0.64/26\<close> and \<open>172.16.0.128/16\<close>, a request for 100 hosts gets \<open>172.16.0.0/26\<close>,
  a block of 62 hosts.
\<close>

lemma findAvailableRange_smaller_block:
  "findAvailableRange baseNetwork 100
     [\<lparr>network = ''172.16.0.64'', mask_len = 26\<rparr>, \<lparr>network = ''172.16.0.128'', mask_len = 16\<rparr>]
     = Inr \<lparr>network = ''172.16.0.0'', mask_len = 26\<rparr>
   \<and> hostsForMask 26 = 62
   \<and> pairwiseDisjoint
         [\<lparr>network = ''172.16.0.64'', mask_len = 26\<rparr>, \<lparr>network = ''172.16.0.128'', mask_len = 16\<rparr>]"
  by code_simp

section \<open>The allocator against the intervals of the specification\<close>

text \<open>
  For masks 11 to 30 no candidate probed from the base network \<open>172.16.0.0\<close> passes
  \<open>2 ^ 32\<close>: the candidate block starts at the number that the code tests, and the test
  of the code says that the block is free, provided that no registry entry has a mask
  above 32 (for such an entry the code computes an interval of a fraction of an address).
\<close>

lemma pow2_bounds: "m \<le> 32 \<Longrightarrow> 1 \<le> pow2 (32 - m)"
  by (simp add: pow2_def)

lemma candidateBlock_no_wrap:
  assumes "11 \<le> m" "m \<le> 30" "k < 512"
  shows "firstAddress (candidateBlock baseNetwork m k) = ipToNumber baseNetwork + int k * pow2 (32 - m)"
    and "lastAddress (candidateBlock baseNetwork m k)
          = ipToNumber baseNetwork + int k * pow2 (32 - m) + pow2 (32 - m) - 1"
proof -
  define c where "c = ipToNumber baseNetwork + int k * pow2 (32 - m)"
  from assms have e: "nat (32 - m) \<le> 21" "0 \<le> 32 - m"
    by simp_all
  then have "(2::int) ^ nat (32 - m) \<le> 2 ^ 21"
    by (intro power_increasing) simp_all
  with e(2) have p: "0 \<le> pow2 (32 - m)" "pow2 (32 - m) \<le> 2097152"
    by (simp_all add: pow2_def)
  from assms(3) have "int k \<le> 511"
    by simp
  with p mult_mono [of "int k" 511 "pow2 (32 - m)" 2097152]
  have "int k * pow2 (32 - m) \<le> 1071644672"
    by simp
  moreover from p have "0 \<le> int k * pow2 (32 - m)"
    by simp
  ultimately have "0 \<le> c" "c < 4294967296"
    by (simp_all add: c_def ipToNumber_baseNetwork)
  then have "ipToNumber (numberToIp c) = c"
    by (simp add: ipToNumber_numberToIp_mod)
  then show "firstAddress (candidateBlock baseNetwork m k) = ipToNumber baseNetwork + int k * pow2 (32 - m)"
    and "lastAddress (candidateBlock baseNetwork m k)
          = ipToNumber baseNetwork + int k * pow2 (32 - m) + pow2 (32 - m) - 1"
    by (simp_all add: firstAddress_def lastAddress_def candidateBlock_def c_def)
qed

lemma isRangeAvailable_freeBlock:
  assumes "11 \<le> m" "m \<le> 30" "k < 512" and "\<forall>u \<in> set usedRanges. mask_len u \<le> 32"
  shows "isRangeAvailable (ipToNumber baseNetwork + int k * pow2 (32 - m)) m usedRanges
           \<longleftrightarrow> freeBlock (candidateBlock baseNetwork m k) usedRanges"
proof -
  define c where "c = ipToNumber baseNetwork + int k * pow2 (32 - m)"
  define b where "b = candidateBlock baseNetwork m k"
  have f: "firstAddress b = c" and l: "lastAddress b = c + pow2 (32 - m) - 1"
    using candidateBlock_no_wrap [OF assms(1-3)] by (simp_all add: b_def c_def)
  from assms(2) have p: "1 \<le> pow2 (32 - m)"
    by (simp add: pow2_bounds)
  have u: "firstAddress u \<le> lastAddress u" if "u \<in> set usedRanges" for u
    using assms(4) that pow2_bounds [of "mask_len u"] by (simp add: firstAddress_def lastAddress_def)
  have "intersects b u \<longleftrightarrow> \<not> (c + pow2 (32 - m) - 1 < firstAddress u \<or> lastAddress u < c)"
    if "u \<in> set usedRanges" for u
    using u [OF that] p by (auto simp: intersects_def f l)
  then show ?thesis
    unfolding c_def [symmetric] b_def [symmetric]
    by (simp add: isRangeAvailable_iff freeBlock_def list_all_iff)
qed

text \<open>
  For these requests the search does what the specification says. A request of 1 to
  2097150 hosts starts at the tightest mask that holds it, never gets a mask below it,
  and gets that mask whenever one of its 512 candidate blocks intersects no reservation;
  and the search fails exactly when every candidate block of every mask from the start
  mask to 30 intersects a reservation.
\<close>

lemma findAvailableRange_tightest_mask:
  assumes "1 \<le> n" "n \<le> 2097150" and "\<forall>u \<in> set usedRanges. mask_len u \<le> 32"
  shows "\<exists>m0. findSmallestMask n = Some m0 \<and> 11 \<le> m0 \<and> m0 \<le> 30
           \<and> (\<forall>m. n \<le> hostsForMask m \<longleftrightarrow> m \<le> m0)
           \<and> (\<forall>r. findAvailableRange baseNetwork n usedRanges = Inr r \<longrightarrow> m0 \<le> mask_len r)
           \<and> ((\<exists>k < 512. freeBlock (candidateBlock baseNetwork m0 k) usedRanges)
                \<longrightarrow> (\<exists>r. findAvailableRange baseNetwork n usedRanges = Inr r \<and> mask_len r = m0))"
proof -
  define m0 where "m0 = 32 - ceilLog2 (n + 2)"
  have s: "findSmallestMask n = Some m0"
    using assms(1,2) by (simp add: findSmallestMask_Some m0_def)
  have le: "m0 \<le> 30"
    using assms(1,2) s by (intro findSmallestMask_le_30 [of n]) simp_all
  have ge: "11 \<le> m0"
    using assms(1,2) s by (rule findSmallestMask_ge_11)
  have cap: "\<forall>m. n \<le> hostsForMask m \<longleftrightarrow> m \<le> m0"
    using hostsForMask_ge_iff [of n m0] assms(1,2) s by simp
  have lower: "\<forall>r. findAvailableRange baseNetwork n usedRanges = Inr r \<longrightarrow> m0 \<le> mask_len r"
    using scanMasks_Inr [of baseNetwork m0 usedRanges] by (auto simp: findAvailableRange_def s)
  have hit: "\<exists>r. findAvailableRange baseNetwork n usedRanges = Inr r \<and> mask_len r = m0"
    if "\<exists>k < 512. freeBlock (candidateBlock baseNetwork m0 k) usedRanges"
  proof -
    from that obtain k where k: "k < 512" "freeBlock (candidateBlock baseNetwork m0 k) usedRanges"
      by blast
    with isRangeAvailable_freeBlock [OF ge le k(1) assms(3)]
    have "isRangeAvailable (ipToNumber baseNetwork + int k * pow2 (32 - m0)) m0 usedRanges"
      by simp
    with k(1) obtain c where "probe (ipToNumber baseNetwork) m0 usedRanges maxTries = Some c"
      using probe_Some_ex [of k maxTries "ipToNumber baseNetwork" m0 usedRanges]
      by (auto simp: maxTries_def)
    with le have "scanMasks baseNetwork m0 usedRanges = Inr \<lparr>network = numberToIp c, mask_len = m0\<rparr>"
      by (subst scanMasks.simps) simp
    then show ?thesis
      by (simp add: findAvailableRange_def s)
  qed
  from s le ge cap lower hit show ?thesis
    by blast
qed

lemma findAvailableRange_PoolExhausted_iff_no_free_block:
  assumes "1 \<le> n" "n \<le> 2097150" and "\<forall>u \<in> set usedRanges. mask_len u \<le> 32"
    and "findSmallestMask n = Some m0"
  shows "findAvailableRange baseNetwork n usedRanges = Inl PoolExhausted \<longleftrightarrow>
           (\<forall>m k. m0 \<le> m \<and> m \<le> 30 \<and> k < 512 \<longrightarrow>
              \<not> freeBlock (candidateBlock baseNetwork m k) usedRanges)"
proof -
  have ge: "11 \<le> m0"
    using assms(1,2,4) by (rule findSmallestMask_ge_11)
  have "isRangeAvailable (ipToNumber baseNetwork + int k * pow2 (32 - m)) m usedRanges
          \<longleftrightarrow> freeBlock (candidateBlock baseNetwork m k) usedRanges"
    if "m0 \<le> m" "m \<le> 30" "k < 512" for m k
    using that ge assms(3) by (intro isRangeAvailable_freeBlock) simp_all
  then show ?thesis
    by (simp add: findAvailableRange_fails_iff_probes assms(4))
qed

text \<open>
  A reservation of the whole address space meets every candidate block, whatever number
  the candidate was tested at.
\<close>

lemma wholeSpace_meets_every_block:
  assumes "m \<le> 32"
  shows "intersects (candidateBlock base m k) wholeSpace"
proof -
  define c where "c = ipToNumber base + int k * pow2 (32 - m)"
  have w: "firstAddress wholeSpace = 0" "lastAddress wholeSpace = 4294967295"
    by code_simp+
  have "ipToNumber (numberToIp c) = c mod 4294967296"
    by (rule ipToNumber_numberToIp_mod)
  then have f: "firstAddress (candidateBlock base m k) = c mod 4294967296"
    and l: "lastAddress (candidateBlock base m k) = c mod 4294967296 + pow2 (32 - m) - 1"
    by (simp_all add: firstAddress_def lastAddress_def candidateBlock_def c_def)
  have "0 \<le> c mod 4294967296" "c mod 4294967296 < 4294967296"
    by simp_all
  with pow2_bounds [OF assms] show ?thesis
    by (simp add: intersects_def f l w)
qed


text \<open>
  C3. The search should fail with \<open>PoolExhausted\<close> exactly when no candidate block, of
  any mask from the start mask to 30, is free. A candidate is tested as the number
  \<open>candidateNetNum\<close>, which may have run past \<open>2 ^ 32\<close>, but the block recorded for it
  is \<open>numberToIp(candidateNetNum)\<close>, which wraps around; so the search does neither for
  a request of 2097151 hosts, which starts at mask 10. Against a registry that
  reserves the whole address space, \<open>0.0.0.0/0\<close>, every candidate block intersects the
  reservation, yet the search returns \<open>0.16.0.0/10\<close>: the 337th candidate is tested at
  4296015872, past the reservation's last address. Against the registry
  \<open>172.16.0.0/1\<close> the search fails, although the same candidate block \<open>0.16.0.0/10\<close>
  intersects nothing in the registry: here the number 4296015872 lies inside the interval
  of the reservation.
\<close>

theorem findAvailableRange_PoolExhausted_disagrees:
  "findSmallestMask 2097151 = Some 10
   \<and> candidateBlock baseNetwork 10 336 = \<lparr>network = ''0.16.0.0'', mask_len = 10\<rparr>
   \<and> ipToNumber baseNetwork + 336 * pow2 (32 - 10) = 4296015872
   \<and> intersects \<lparr>network = ''0.16.0.0'', mask_len = 10\<rparr> wholeSpace
   \<and> isRangeAvailable 4296015872 10 [wholeSpace]
   \<and> findAvailableRange baseNetwork 2097151 [wholeSpace]
       = Inr \<lparr>network = ''0.16.0.0'', mask_len = 10\<rparr>
   \<and> freeBlock \<lparr>network = ''0.16.0.0'', mask_len = 10\<rparr>
         [\<lparr>network = ''172.16.0.0'', mask_len = 1\<rparr>]
   \<and> \<not> isRangeAvailable 4296015872 10 [\<lparr>network = ''172.16.0.0'', mask_len = 1\<rparr>]
   \<and> findAvailableRange baseNetwork 2097151 [\<lparr>network = ''172.16.0.0'', mask_len = 1\<rparr>]
       = Inl PoolExhausted"
proof -
  let ?e = "\<lparr>network = ''172.16.0.0'', mask_len = 1\<rparr>"
  have s: "findSmallestMask 2097151 = Some 10"
    by code_simp
  have b: "candidateBlock baseNetwork 10 336 = \<lparr>network = ''0.16.0.0'', mask_len = 10\<rparr>"
    by code_simp
  have c: "ipToNumber baseNetwork + 336 * pow2 (32 - 10) = 4296015872"
    by code_simp
  have i: "intersects \<lparr>network = ''0.16.0.0'', mask_len = 10\<rparr> wholeSpace"
    by code_simp
  have a: "isRangeAvailable 4296015872 10 [wholeSpace]"
    by code_simp
  have f: "freeBlock \<lparr>network = ''0.16.0.0'', mask_len = 10\<rparr> [?e]"
    by code_simp
  have t: "\<not> isRangeAvailable 4296015872 10 [?e]"
    by code_simp
  have p: "pow2 22 = 4194304"
    by code_simp
  have w: "firstAddress wholeSpace = 0" "lastAddress wholeSpace = 4294967295"
    by code_simp+
  have e: "firstAddress ?e = 2886729728" "lastAddress ?e = 5034213375"
    by code_simp+
  have "\<not> isRangeAvailable (ipToNumber baseNetwork + int j * pow2 (32 - 10)) 10 [wholeSpace]"
    if "j < 336" for j
  proof -
    from that have "int j \<le> 335"
      by simp
    then show ?thesis
      by (simp add: isRangeAvailable_iff ipToNumber_baseNetwork p w)
  qed
  with a have "probe (ipToNumber baseNetwork) 10 [wholeSpace] maxTries
                = Some (ipToNumber baseNetwork + int 336 * pow2 (32 - 10))"
    by (intro probe_first) (simp_all add: maxTries_def ipToNumber_baseNetwork p)
  moreover have "numberToIp 4296015872 = ''0.16.0.0''"
    by code_simp
  ultimately have "scanMasks baseNetwork 10 [wholeSpace] = Inr \<lparr>network = ''0.16.0.0'', mask_len = 10\<rparr>"
    by (subst scanMasks.simps) (simp add: ipToNumber_baseNetwork p)
  then have r: "findAvailableRange baseNetwork 2097151 [wholeSpace]
                 = Inr \<lparr>network = ''0.16.0.0'', mask_len = 10\<rparr>"
    by (simp add: findAvailableRange_def s)
  have "\<not> isRangeAvailable (ipToNumber baseNetwork + int k * pow2 (32 - m)) m [?e]"
    if "10 \<le> m" "m \<le> 30" "k < 512" for m k
  proof -
    from that have x: "nat (32 - m) \<le> 22" "0 \<le> 32 - m"
      by simp_all
    then have "(2::int) ^ nat (32 - m) \<le> 2 ^ 22"
      by (intro power_increasing) simp_all
    with x(2) have q: "1 \<le> pow2 (32 - m)" "pow2 (32 - m) \<le> 4194304"
      by (simp_all add: pow2_def)
    from that(3) have "int k \<le> 511"
      by simp
    with q mult_mono [of "int k" 511 "pow2 (32 - m)" 4194304]
    have "int k * pow2 (32 - m) \<le> 2143289344"
      by simp
    moreover from q have "0 \<le> int k * pow2 (32 - m)"
      by simp
    moreover define y where "y = int k * pow2 (32 - m)"
    ultimately have "0 \<le> y" "y \<le> 2143289344"
      by simp_all
    with q show ?thesis
      unfolding y_def [symmetric]
      by (simp add: isRangeAvailable_iff ipToNumber_baseNetwork e)
  qed
  then have x: "findAvailableRange baseNetwork 2097151 [?e] = Inl PoolExhausted"
    by (simp add: findAvailableRange_fails_iff_probes s)
  from s b c i a r f t x show ?thesis
    by (intro conjI)
qed

text \<open>
  What does hold for every request: the search fails exactly when the test of the code
  refuses every candidate number (lemma \<open>findAvailableRange_fails_iff_probes\<close>), for
  requests of at most 2097150 hosts that is when no candidate block is free (lemma
  \<open>findAvailableRange_PoolExhausted_iff_no_free_block\<close>), and a failed search leaves the
  registry and the files as they were (lemma \<open>generateAdresacja_PoolExhausted\<close>): a run
  of \<open>generateAdresacja\<close> against a registry file that reserves the whole address space.
\<close>

lemma generateAdresacja_PoolExhausted_example:
  "generateAdresacja (libWith [wholeSpace]) csv0 fsData [mkRow ''A'' ''SKP'' ''kamera'' 1 ''lan'']
         ''wykaz_X_1'' ''DATA.json'' ''output'' cfgOff = (Inl PoolExhausted, fsData)"
proof -
  have e1: "findAvailableRange baseNetwork 2 [wholeSpace] = Inl PoolExhausted"
    by code_simp
  have e2: "sortCsvRows [mkRow ''A'' ''SKP'' ''kamera'' 1 ''lan'']
              = Inr [mkRow ''A'' ''SKP'' ''kamera'' 1 ''lan'']"
    by code_simp
  have e3: "loadUsedRanges (libWith [wholeSpace]) fsData ''DATA.json'' = Inr [wholeSpace]"
    by code_simp
  have e4: "withBuffer (sumIlosc [mkRow ''A'' ''SKP'' ''kamera'' 1 ''lan'']) = 2"
    by code_simp
  from e1 e4 have "findAvailableRange baseNetwork
      (withBuffer (sumIlosc [mkRow ''A'' ''SKP'' ''kamera'' 1 ''lan''])) [wholeSpace] = Inl PoolExhausted"
    by simp
  with e2 e3 show ?thesis
    by (rule generateAdresacja_PoolExhausted)
qed

section \<open>The range registry\<close>

lemma readFileSync_cases:
  "readFileSync fs p = Inl e \<longleftrightarrow>
     (fs p = None \<and> e = FsError ''ENOENT'')
     \<or> (\<exists>f. fs p = Some f \<and> \<not> perm_read f \<and> e = FsError ''EACCES'')"
  by (auto simp: readFileSync_def split: option.splits)

text \<open>
  C8. For every path, loading the registry returns the empty list whenever the path is
  missing, the file is unreadable, or the content of the file is invalid (the parser
  throws); and it never propagates a failure to the caller: it always returns a value.
\<close>

theorem loadUsedRanges_lenient:
  "(\<exists>ranges. loadUsedRanges lib fs dataPath = Inr ranges)
   \<and> (fs dataPath = None \<longrightarrow> loadUsedRanges lib fs dataPath = Inr [])
   \<and> (\<forall>f. fs dataPath = Some f \<and> \<not> perm_read f \<longrightarrow> loadUsedRanges lib fs dataPath = Inr [])
   \<and> (\<forall>f e. fs dataPath = Some f \<and> perm_read f \<and> JSON_parse lib (content f) = Inl e
         \<longrightarrow> loadUsedRanges lib fs dataPath = Inr [])"
  by (auto simp: loadUsedRanges_def try_catch_def bind_def readFileSync_def
           split: sum.splits option.splits)

theorem loadUsedRanges_lenient_witness:
  "fsEmpty ''DATA.json'' = None
   \<and> loadUsedRanges (libWith [wholeSpace]) fsEmpty ''DATA.json'' = Inr []
   \<and> (\<exists>f. fsData ''x.json'' = None \<and> (fsData(''x.json'' \<mapsto> File False True ''[...]'')) ''x.json'' = Some f
          \<and> \<not> perm_read f)
   \<and> loadUsedRanges (libWith [wholeSpace]) (fsData(''x.json'' \<mapsto> File False True ''[...]'')) ''x.json'' = Inr []
   \<and> (\<exists>f e. (fsData(''e.json'' \<mapsto> File True True [])) ''e.json'' = Some f \<and> perm_read f
          \<and> JSON_parse (libWith [wholeSpace]) (content f) = Inl e)
   \<and> loadUsedRanges (libWith [wholeSpace]) (fsData(''e.json'' \<mapsto> File True True [])) ''e.json'' = Inr []"
proof -
  have a: "fsEmpty ''DATA.json'' = None"
    by (simp add: fsEmpty_def)
  have b: "(fsData(''x.json'' \<mapsto> File False True ''[...]'')) ''x.json'' = Some (File False True ''[...]'')
             \<and> \<not> perm_read (File False True ''[...]'')"
    by simp
  have c: "(fsData(''e.json'' \<mapsto> File True True [])) ''e.json'' = Some (File True True [])
             \<and> perm_read (File True True [])
             \<and> JSON_parse (libWith [wholeSpace]) (content (File True True [])) = Inl SyntaxError"
    by (simp add: libWith_def)
  have x: "fsData ''x.json'' = None"
    by (simp add: fsData_def)
  from a loadUsedRanges_lenient [of "libWith [wholeSpace]" fsEmpty "''DATA.json''"]
  have 1: "loadUsedRanges (libWith [wholeSpace]) fsEmpty ''DATA.json'' = Inr []"
    by blast
  from b loadUsedRanges_lenient
    [of "libWith [wholeSpace]" "fsData(''x.json'' \<mapsto> File False True ''[...]'')" "''x.json''"]
  have 2: "loadUsedRanges (libWith [wholeSpace]) (fsData(''x.json'' \<mapsto> File False True ''[...]'')) ''x.json'' = Inr []"
    by blast
  from c loadUsedRanges_lenient
    [of "libWith [wholeSpace]" "fsData(''e.json'' \<mapsto> File True True [])" "''e.json''"]
  have 3: "loadUsedRanges (libWith [wholeSpace]) (fsData(''e.json'' \<mapsto> File True True [])) ''e.json'' = Inr []"
    by blast
  from a b c x 1 2 3 show ?thesis
    by blast
qed

section \<open>The equipment deriver\<close>

lemma sumIlosc_sum_list: "sumIlosc rs = sum_list (map ilosc rs)"
proof -
  have "foldl (\<lambda>sum r. sum + ilosc r) a rs = a + sum_list (map ilosc rs)" for a
    by (induction rs arbitrary: a) simp_all
  then show ?thesis
    by (simp add: sumIlosc_def)
qed

lemma ceilDiv_ceiling: "0 < b \<Longrightarrow> ceilDiv a b = \<lceil>real_of_int a / real_of_int b\<rceil>"
  by (simp add: ceilDiv_def ceiling_divide_eq_div)

lemma withBuffer_ceiling: "withBuffer n = \<lceil>real_of_int n * 1.2\<rceil>"
proof -
  have "real_of_int n * 1.2 = real_of_int (n * 6) / real_of_int 5"
    by simp
  then show ?thesis
    by (simp only: withBuffer_def ceilDiv_def ceiling_divide_eq_div)
qed

lemma pushItems_upto: "pushItems item i n equipment = equipment @ map item [i..n]"
proof (induction item i n equipment rule: pushItems.induct)
  case (1 item i n equipment)
  show ?case
  proof (cases "i \<le> n")
    case True
    with "1.IH" show ?thesis
      by (subst pushItems.simps) (simp add: upto_rec1 [of i n])
  next
    case False
    then show ?thesis
      by (subst pushItems.simps) simp
  qed
qed

text \<open>
  C7. For every row list and every value of \<open>redLightEnabled\<close>, if \<open>lprEnabled\<close> is false
  (or missing, which defaults to false) the equipment deriver returns the empty list.
\<close>

theorem generateNastawniaEquipment_gated:
  "lprEnabled cfg = Some False \<or> lprEnabled cfg = None \<Longrightarrow> generateNastawniaEquipment csvRows cfg = []"
  by (auto simp: generateNastawniaEquipment_def)

theorem generateNastawniaEquipment_gated_witness:
  "(lprEnabled \<lparr>lprEnabled = Some False, redLightEnabled = Some True\<rparr> = Some False
      \<or> lprEnabled \<lparr>lprEnabled = Some False, redLightEnabled = Some True\<rparr> = None)
   \<and> generateNastawniaEquipment [mkRow ''A'' ''KAT A'' ''WV-U1532LA'' 5 ''lanz'']
        \<lparr>lprEnabled = Some False, redLightEnabled = Some True\<rparr> = []"
  using generateNastawniaEquipment_gated
    [of "\<lparr>lprEnabled = Some False, redLightEnabled = Some True\<rparr>"
        "[mkRow ''A'' ''KAT A'' ''WV-U1532LA'' 5 ''lanz'']"]
  by simp

text \<open>
  C6. With \<open>lprEnabled\<close> true: if \<open>redLightEnabled\<close> is true the deriver uses
  \<open>maxSetsPerServer = 4\<close>, \<open>ssvLicenses = max(8, allCameras)\<close> and
  \<open>vcaLicenses = u1532Cameras\<close>; if it is false, \<open>maxSetsPerServer = 12\<close>,
  \<open>ssvLicenses = max(8, allCameras)\<close> and \<open>vcaLicenses = 0\<close>. The output is, in order:
  \<open>ceil(cameraSets / maxSetsPerServer)\<close> server items (none unless at least one is
  needed), one SSV licence item if \<open>ssvLicenses > 0\<close>, one VCA licence item if
  \<open>vcaLicenses > 0\<close>, and \<open>ceil(cameraSets / 16)\<close> recorder items if \<open>cameraSets > 0\<close>.
  Each aggregate is the sum of the quantities of the rows its filter keeps, and every
  filter drops the rows of class \<open>lanz1\<close>. The items are given with all their fields: a
  server and a recorder item are numbered from 1 and have quantity 1, a licence item has
  the number of licences as its quantity.
\<close>

theorem generateNastawniaEquipment_lpr:
  "lprEnabled cfg = Some True \<Longrightarrow>
   (let redLight = (redLightEnabled cfg = Some True);
        cameraSets = (\<Sum>r\<leftarrow>filter (\<lambda>r. (includes_str (nazwa r) ''U1532''
                            \<or> includes_str (nazwa r) ''S1536LTN'') \<and> klasa r \<noteq> ''lanz1'') csvRows. ilosc r);
        allCameras = (\<Sum>r\<leftarrow>filter (\<lambda>r. (kategoria r = ''SKP'' \<or> kategoria r = ''KAT A'')
                            \<and> klasa r \<noteq> ''lanz1'') csvRows. ilosc r);
        u1532Cameras = (\<Sum>r\<leftarrow>filter (\<lambda>r. includes_str (nazwa r) ''U1532''
                            \<and> (kategoria r = ''KAT A'' \<or> kategoria r = ''KAT B'')
                            \<and> klasa r \<noteq> ''lanz1'') csvRows. ilosc r);
        maxSetsPerServer = (if redLight then 4 else 12);
        ssvLicenses = max 8 allCameras;
        vcaLicenses = (if redLight then u1532Cameras else 0)
    in generateNastawniaEquipment csvRows cfg =
         map (\<lambda>i. \<lparr>nazwa_e = ''Serwer LPR '' @ Number_toString i,
                     klasa_e = ''Klasa-0'', typ_e = ''serwer'', ilosc_e = 1,
                     opis_e = ''Serwer dla zestawu kamer U1532/S1536LTN (max ''
                              @ Number_toString maxSetsPerServer
                              @ '' zestaw'' @ [CHR 0xC3, CHR 0xB3] @ ''w)''\<rparr>)
             [1..\<lceil>real_of_int cameraSets / real_of_int maxSetsPerServer\<rceil>]
         @ (if ssvLicenses > 0
            then [\<lparr>nazwa_e = ''Licencja SSV'', klasa_e = ''Klasa-0'', typ_e = ''licencja'',
                   ilosc_e = ssvLicenses,
                   opis_e = ''Licencja SSV dla '' @ Number_toString ssvLicenses
                            @ '' kamer (minimum 8)''\<rparr>]
            else [])
         @ (if vcaLicenses > 0
            then [\<lparr>nazwa_e = ''Licencja VCA'', klasa_e = ''Klasa-0'', typ_e = ''licencja'',
                   ilosc_e = vcaLicenses,
                   opis_e = ''Licencja VCA dla '' @ Number_toString vcaLicenses
                            @ '' kamer U1532 w obiektach KAT A/B''\<rparr>]
            else [])
         @ (if cameraSets > 0
            then map (\<lambda>i. \<lparr>nazwa_e = ''Rejestrator NVR '' @ Number_toString i,
                             klasa_e = ''Klasa-0'', typ_e = ''rejestrator'', ilosc_e = 1,
                             opis_e = ''Rejestrator dla kamer (pojemno''
                                      @ [CHR 0xC5, CHR 0x9B, CHR 0xC4, CHR 0x87]
                                      @ '': 16000GB)''\<rparr>)
                     [1..\<lceil>real_of_int cameraSets / 16\<rceil>]
            else []))"
proof -
  assume lpr: "lprEnabled cfg = Some True"
  have c16: "ceilDiv a 16 = \<lceil>real_of_int a / 16\<rceil>" for a
    using ceilDiv_ceiling [of 16 a] by simp
  have c4: "ceilDiv a 4 = \<lceil>real_of_int a / 4\<rceil>" for a
    using ceilDiv_ceiling [of 4 a] by simp
  have c12: "ceilDiv a 12 = \<lceil>real_of_int a / 12\<rceil>" for a
    using ceilDiv_ceiling [of 12 a] by simp
  have d: "Number_toString DISK_CAPACITIES_16TB = ''16000''"
    by code_simp
  have srv: "serverItem m = (\<lambda>i. \<lparr>nazwa_e = ''Serwer LPR '' @ Number_toString i,
                     klasa_e = ''Klasa-0'', typ_e = ''serwer'', ilosc_e = 1,
                     opis_e = ''Serwer dla zestawu kamer U1532/S1536LTN (max ''
                              @ Number_toString m
                              @ '' zestaw'' @ [CHR 0xC3, CHR 0xB3] @ ''w)''\<rparr>)" for m
    by (rule ext) (simp add: serverItem_def)
  have rec: "recorderItem = (\<lambda>i. \<lparr>nazwa_e = ''Rejestrator NVR '' @ Number_toString i,
                             klasa_e = ''Klasa-0'', typ_e = ''rejestrator'', ilosc_e = 1,
                             opis_e = ''Rejestrator dla kamer (pojemno''
                                      @ [CHR 0xC5, CHR 0x9B, CHR 0xC4, CHR 0x87]
                                      @ '': 16000GB)''\<rparr>)"
    by (rule ext) (simp add: recorderItem_def d)
  show ?thesis
  proof (cases "redLightEnabled cfg = Some True")
    case True
    with lpr show ?thesis
      by (simp add: generateNastawniaEquipment_def Let_def pushItems_upto c4 c16
            countCameraSets_def countSKPAndKATACameras_def countU1532CamerasInKATObjects_def
            sumIlosc_sum_list srv rec ssvItem_def vcaItem_def)
  next
    case False
    then have "(case redLightEnabled cfg of None \<Rightarrow> False | Some b \<Rightarrow> b) = False"
      by (cases "redLightEnabled cfg") auto
    with lpr False show ?thesis
      by (simp add: generateNastawniaEquipment_def Let_def pushItems_upto c12 c16
            countCameraSets_def countSKPAndKATACameras_def countU1532CamerasInKATObjects_def
            sumIlosc_sum_list srv rec ssvItem_def vcaItem_def)
  qed
qed

theorem generateNastawniaEquipment_lpr_witness:
  "lprEnabled \<lparr>lprEnabled = Some True, redLightEnabled = Some True\<rparr> = Some True
   \<and> generateNastawniaEquipment
        [mkRow ''A'' ''KAT A'' ''WV-U1532LA'' 17 ''lanz'', mkRow ''A'' ''SKP'' ''kamera'' 3 ''lan'',
         mkRow ''B'' ''KAT A'' ''WV-U1532LA'' 9 ''lanz1'']
        \<lparr>lprEnabled = Some True, redLightEnabled = Some True\<rparr>
      = [\<lparr>nazwa_e = ''Serwer LPR 1'', klasa_e = ''Klasa-0'', typ_e = ''serwer'', ilosc_e = 1,
          opis_e = ''Serwer dla zestawu kamer U1532/S1536LTN (max 4 zestaw''
                   @ [CHR 0xC3, CHR 0xB3] @ ''w)''\<rparr>,
         \<lparr>nazwa_e = ''Serwer LPR 2'', klasa_e = ''Klasa-0'', typ_e = ''serwer'', ilosc_e = 1,
          opis_e = ''Serwer dla zestawu kamer U1532/S1536LTN (max 4 zestaw''
                   @ [CHR 0xC3, CHR 0xB3] @ ''w)''\<rparr>,
         \<lparr>nazwa_e = ''Serwer LPR 3'', klasa_e = ''Klasa-0'', typ_e = ''serwer'', ilosc_e = 1,
          opis_e = ''Serwer dla zestawu kamer U1532/S1536LTN (max 4 zestaw''
                   @ [CHR 0xC3, CHR 0xB3] @ ''w)''\<rparr>,
         \<lparr>nazwa_e = ''Serwer LPR 4'', klasa_e = ''Klasa-0'', typ_e = ''serwer'', ilosc_e = 1,
          opis_e = ''Serwer dla zestawu kamer U1532/S1536LTN (max 4 zestaw''
                   @ [CHR 0xC3, CHR 0xB3] @ ''w)''\<rparr>,
         \<lparr>nazwa_e = ''Serwer LPR 5'', klasa_e = ''Klasa-0'', typ_e = ''serwer'', ilosc_e = 1,
          opis_e = ''Serwer dla zestawu kamer U1532/S1536LTN (max 4 zestaw''
                   @ [CHR 0xC3, CHR 0xB3] @ ''w)''\<rparr>,
         \<lparr>nazwa_e = ''Licencja SSV'', klasa_e = ''Klasa-0'', typ_e = ''licencja'', ilosc_e = 20,
          opis_e = ''Licencja SSV dla 20 kamer (minimum 8)''\<rparr>,
         \<lparr>nazwa_e = ''Licencja VCA'', klasa_e = ''Klasa-0'', typ_e = ''licencja'', ilosc_e = 17,
          opis_e = ''Licencja VCA dla 17 kamer U1532 w obiektach KAT A/B''\<rparr>,
         \<lparr>nazwa_e = ''Rejestrator NVR 1'', klasa_e = ''Klasa-0'', typ_e = ''rejestrator'', ilosc_e = 1,
          opis_e = ''Rejestrator dla kamer (pojemno'' @ [CHR 0xC5, CHR 0x9B, CHR 0xC4, CHR 0x87]
                   @ '': 16000GB)''\<rparr>,
         \<lparr>nazwa_e = ''Rejestrator NVR 2'', klasa_e = ''Klasa-0'', typ_e = ''rejestrator'', ilosc_e = 1,
          opis_e = ''Rejestrator dla kamer (pojemno'' @ [CHR 0xC5, CHR 0x9B, CHR 0xC4, CHR 0x87]
                   @ '': 16000GB)''\<rparr>]
   \<and> lprEnabled \<lparr>lprEnabled = Some True, redLightEnabled = Some False\<rparr> = Some True
   \<and> generateNastawniaEquipment
        [mkRow ''A'' ''KAT A'' ''WV-U1532LA'' 17 ''lanz'', mkRow ''A'' ''SKP'' ''kamera'' 3 ''lan'',
         mkRow ''B'' ''KAT A'' ''WV-U1532LA'' 9 ''lanz1'']
        \<lparr>lprEnabled = Some True, redLightEnabled = Some False\<rparr>
      = [\<lparr>nazwa_e = ''Serwer LPR 1'', klasa_e = ''Klasa-0'', typ_e = ''serwer'', ilosc_e = 1,
          opis_e = ''Serwer dla zestawu kamer U1532/S1536LTN (max 12 zestaw''
                   @ [CHR 0xC3, CHR 0xB3] @ ''w)''\<rparr>,
         \<lparr>nazwa_e = ''Serwer LPR 2'', klasa_e = ''Klasa-0'', typ_e = ''serwer'', ilosc_e = 1,
          opis_e = ''Serwer dla zestawu kamer U1532/S1536LTN (max 12 zestaw''
                   @ [CHR 0xC3, CHR 0xB3] @ ''w)''\<rparr>,
         \<lparr>nazwa_e = ''Licencja SSV'', klasa_e = ''Klasa-0'', typ_e = ''licencja'', ilosc_e = 20,
          opis_e = ''Licencja SSV dla 20 kamer (minimum 8)''\<rparr>,
         \<lparr>nazwa_e = ''Rejestrator NVR 1'', klasa_e = ''Klasa-0'', typ_e = ''rejestrator'', ilosc_e = 1,
          opis_e = ''Rejestrator dla kamer (pojemno'' @ [CHR 0xC5, CHR 0x9B, CHR 0xC4, CHR 0x87]
                   @ '': 16000GB)''\<rparr>,
         \<lparr>nazwa_e = ''Rejestrator NVR 2'', klasa_e = ''Klasa-0'', typ_e = ''rejestrator'', ilosc_e = 1,
          opis_e = ''Rejestrator dla kamer (pojemno'' @ [CHR 0xC5, CHR 0x9B, CHR 0xC4, CHR 0x87]
                   @ '': 16000GB)''\<rparr>]"
proof -
  have i: "includes_str ''WV-U1532LA'' ''U1532''" "\<not> includes_str ''kamera'' ''U1532''"
      "\<not> includes_str ''kamera'' ''S1536LTN''"
    by code_simp+
  have u: "[1..5] = [1, 2, 3, 4, 5::int]" "[1..2] = [1, 2::int]"
    by code_simp+
  have c: "\<lceil>17 / 4 :: real\<rceil> = 5" "\<lceil>17 / 16 :: real\<rceil> = 2" "\<lceil>17 / 12 :: real\<rceil> = 2"
    by simp_all
  have n: "Number_toString 1 = ''1''" "Number_toString 2 = ''2''" "Number_toString 3 = ''3''"
      "Number_toString 4 = ''4''" "Number_toString 5 = ''5''" "Number_toString 12 = ''12''"
      "Number_toString 17 = ''17''" "Number_toString 20 = ''20''"
    by code_simp+
  from generateNastawniaEquipment_lpr
      [of "\<lparr>lprEnabled = Some True, redLightEnabled = Some True\<rparr>"
          "[mkRow ''A'' ''KAT A'' ''WV-U1532LA'' 17 ''lanz'', mkRow ''A'' ''SKP'' ''kamera'' 3 ''lan'',
            mkRow ''B'' ''KAT A'' ''WV-U1532LA'' 9 ''lanz1'']"]
    generateNastawniaEquipment_lpr
      [of "\<lparr>lprEnabled = Some True, redLightEnabled = Some False\<rparr>"
          "[mkRow ''A'' ''KAT A'' ''WV-U1532LA'' 17 ''lanz'', mkRow ''A'' ''SKP'' ''kamera'' 3 ''lan'',
            mkRow ''B'' ''KAT A'' ''WV-U1532LA'' 9 ''lanz1'']"]
  show ?thesis
    by (simp add: mkRow_def i u c n Let_def)
qed

section \<open>Address assignment\<close>

lemma unitsLoop_lanz1:
  "klasa r = ''lanz1'' \<Longrightarrow>
     unitsLoop m gw r k (ip, out) = (ip, out @ replicate k (unitRow r ''DHCP'' m gw))"
proof (induction k arbitrary: out)
  case 0
  then show ?case by simp
next
  case (Suc k)
  then show ?case
    by (simp add: replicate_app_Cons_same)
qed

lemma unitsLoop_static:
  "klasa r \<noteq> ''lanz1'' \<Longrightarrow>
     unitsLoop m gw r k (ip, out)
       = (ip + int k, out @ map (\<lambda>i. unitRow r (numberToIp (ip + int i)) m gw) [0..<k])"
proof (induction k arbitrary: ip out)
  case 0
  then show ?case by simp
next
  case (Suc k)
  have "map (\<lambda>i. unitRow r (numberToIp (ip + int i)) m gw) [0..<Suc k]
          = unitRow r (numberToIp ip) m gw
              # map (\<lambda>i. unitRow r (numberToIp (ip + 1 + int i)) m gw) [0..<k]"
    by (simp add: upt_conv_Cons map_Suc_upt [symmetric] add.assoc del: upt_Suc)
  with Suc show ?case
    by (simp add: add.assoc del: upt_Suc)
qed

lemma foldl_unitsLoop:
  "foldl (\<lambda>st r. unitsLoop m gw r (nat (ilosc r)) st) (ip, out) rs
     = (ip + sum_list (map (\<lambda>r. if klasa r = ''lanz1'' then 0 else int (nat (ilosc r))) rs),
        out @ expectedUnits m gw ip rs)"
proof (induction rs arbitrary: ip out)
  case Nil
  then show ?case by simp
next
  case (Cons r rs)
  show ?case
  proof (cases "klasa r = ''lanz1''")
    case True
    then show ?thesis
      by (simp add: unitsLoop_lanz1 Cons.IH unitRow_def)
  next
    case False
    then show ?thesis
      by (simp add: unitsLoop_static Cons.IH unitRow_def add.assoc)
  qed
qed

lemma assignRows_expectedUnits:
  "assignRows m gw sortedRows = expectedUnits m gw (ipToNumber gw) sortedRows"
  by (simp add: assignRows_def foldl_unitsLoop)

lemma numberToIp_not_DHCP: "numberToIp n \<noteq> ''DHCP''"
proof -
  define a where "a = (n mod 4294967296) div 16777216 mod 256"
  have "0 \<le> a"
    by (simp add: a_def)
  then have d: "list_all (isRadixDigit 10) (decimal a)" "decimal a \<noteq> []"
    by (simp_all add: decimal_digits decimal_nonempty)
  then obtain c cs where c: "decimal a = c # cs" "isRadixDigit 10 c"
    by (cases "decimal a") auto
  then have "c \<noteq> CHR ''D''"
    by (auto simp: isRadixDigit_10)
  with c(1) show ?thesis
    by (simp add: numberToIp_octets a_def [symmetric])
qed

lemma expectedUnits_gateway:
  "u \<in> set (expectedUnits m gw ip rs) \<Longrightarrow> \<not> isDynamic u \<Longrightarrow> brama u = gw \<and> serwerNTP u = gw"
  by (induction rs arbitrary: ip) (auto simp: isDynamic_def split: if_splits)

lemma expectedUnits_first_static:
  "List.find (\<lambda>u. \<not> isDynamic u) (expectedUnits m gw ip rs) = Some u \<Longrightarrow> adresIP u = numberToIp ip"
proof (induction rs arbitrary: ip)
  case Nil
  then show ?case by simp
next
  case (Cons r rs)
  show ?case
  proof (cases "klasa r = ''lanz1''")
    case True
    have "List.find (\<lambda>u. \<not> isDynamic u) (replicate k x @ ys) = List.find (\<lambda>u. \<not> isDynamic u) ys"
      if "isDynamic x" for k x ys
      using that by (induction k) simp_all
    with True Cons.prems have "List.find (\<lambda>u. \<not> isDynamic u) (expectedUnits m gw ip rs) = Some u"
      by (simp add: isDynamic_def)
    then show ?thesis
      by (rule Cons.IH)
  next
    case False
    show ?thesis
    proof (cases "nat (ilosc r)")
      case 0
      with False Cons.prems have "List.find (\<lambda>u. \<not> isDynamic u) (expectedUnits m gw ip rs) = Some u"
        by simp
      then show ?thesis
        by (rule Cons.IH)
    next
      case (Suc k)
      with False Cons.prems show ?thesis
        by (auto simp: upt_conv_Cons isDynamic_def numberToIp_not_DHCP simp del: upt_Suc)
    qed
  qed
qed

lemma generateAdresacja_Inr:
  assumes "fst (generateAdresacja lib csv fs csvRows fileBase dataJsonPath outputDir cfg) = Inr res"
  shows "\<exists>sortedRows usedRanges.
           sortCsvRows csvRows = Inr sortedRows
         \<and> loadUsedRanges lib fs dataJsonPath = Inr usedRanges
         \<and> findAvailableRange baseNetwork (withBuffer (sumIlosc sortedRows)) usedRanges
             = Inr \<lparr>network = network_a res, mask_len = mask_a res\<rparr>
         \<and> rangeStart_a res = numberToIp (ipToNumber (network_a res) + 1)
         \<and> rangeEnd_a res = numberToIp (ipToNumber (network_a res) + hostsForMask (mask_a res))
         \<and> rows res = expectedUnits (mask_a res) (rangeStart_a res) (ipToNumber (rangeStart_a res)) sortedRows
         \<and> stationEquipment res = generateNastawniaEquipment csvRows cfg"
  using assms
  by (auto simp: generateAdresacja_def Let_def assignRows_expectedUnits split: sum.splits)

text \<open>
  C10. For every successful run that assigns at least one non-dynamic unit, the address
  of the first non-dynamic unit equals \<open>rangeStart\<close>, and \<open>rangeStart\<close> is also the
  gateway and the NTP address of every non-dynamic unit: the first statically addressed
  device shares its address with the subnet's gateway and NTP host.
\<close>

theorem first_static_unit_has_gateway_address:
  assumes "fst (generateAdresacja lib csv fs csvRows fileBase dataJsonPath outputDir cfg) = Inr res"
  shows "(\<forall>u. List.find (\<lambda>u. \<not> isDynamic u) (rows res) = Some u \<longrightarrow> adresIP u = rangeStart_a res)
       \<and> (\<forall>u \<in> set (rows res). \<not> isDynamic u \<longrightarrow>
             brama u = rangeStart_a res \<and> serwerNTP u = rangeStart_a res)"
proof -
  from generateAdresacja_Inr [OF assms] obtain sortedRows where
      rs: "rangeStart_a res = numberToIp (ipToNumber (network_a res) + 1)"
      and un: "rows res = expectedUnits (mask_a res) (rangeStart_a res)
                   (ipToNumber (rangeStart_a res)) sortedRows"
    by blast
  have rt: "numberToIp (ipToNumber (rangeStart_a res)) = rangeStart_a res"
    by (simp only: rs numberToIp_ipToNumber_numberToIp)
  have "adresIP u = rangeStart_a res"
    if "List.find (\<lambda>u. \<not> isDynamic u) (rows res) = Some u" for u
    using expectedUnits_first_static [of "mask_a res" "rangeStart_a res"
        "ipToNumber (rangeStart_a res)" sortedRows u] that
    by (simp add: un [symmetric] rt)
  moreover have "brama u = rangeStart_a res \<and> serwerNTP u = rangeStart_a res"
    if "u \<in> set (rows res)" "\<not> isDynamic u" for u
    using expectedUnits_gateway [of u "mask_a res" "rangeStart_a res"
        "ipToNumber (rangeStart_a res)" sortedRows] that
    by (simp add: un [symmetric])
  ultimately show ?thesis
    by blast
qed

theorem first_static_unit_has_gateway_address_witness:
  "\<exists>res u. fst (generateAdresacja (libWith []) csv0 fsEmpty
                  [mkRow ''A'' ''SKP'' ''kamera'' 2 ''lanz1'', mkRow ''B'' ''SKP'' ''kamera'' 2 ''lan'']
                  ''wykaz_X_1'' ''DATA.json'' ''output'' cfgOff) = Inr res
     \<and> List.find (\<lambda>u. \<not> isDynamic u) (rows res) = Some u
     \<and> u \<in> set (rows res)
     \<and> out_nazwaObiektu u = ''B''
     \<and> adresIP u = ''172.16.0.1''
     \<and> rangeStart_a res = ''172.16.0.1''
     \<and> brama u = ''172.16.0.1'' \<and> serwerNTP u = ''172.16.0.1''"
proof -
  let ?run = "fst (generateAdresacja (libWith []) csv0 fsEmpty
                  [mkRow ''A'' ''SKP'' ''kamera'' 2 ''lanz1'', mkRow ''B'' ''SKP'' ''kamera'' 2 ''lan'']
                  ''wykaz_X_1'' ''DATA.json'' ''output'' cfgOff)"
  have "case ?run of
          Inl e \<Rightarrow> False
        | Inr res \<Rightarrow>
            (case List.find (\<lambda>u. \<not> isDynamic u) (rows res) of
               None \<Rightarrow> False
             | Some u \<Rightarrow> out_nazwaObiektu u = ''B'' \<and> rangeStart_a res = ''172.16.0.1'')"
    by code_simp
  then obtain res u where r: "?run = Inr res"
      and f: "List.find (\<lambda>u. \<not> isDynamic u) (rows res) = Some u"
      and o: "out_nazwaObiektu u = ''B''" "rangeStart_a res = ''172.16.0.1''"
    by (auto split: sum.splits option.splits)
  from f have m: "u \<in> set (rows res)" "\<not> isDynamic u"
    by (auto simp: find_Some_iff)
  from first_static_unit_has_gateway_address [OF r] f m o(2)
  have "adresIP u = ''172.16.0.1''" "brama u = ''172.16.0.1''" "serwerNTP u = ''172.16.0.1''"
    by auto
  with r f m(1) o show ?thesis
    by blast
qed

text \<open>
  C4. Each input row with quantity \<open>q\<close> should give exactly \<open>q\<close> output units. A row of
  class \<open>lanz\<close> whose device name contains both marker strings is put into the sorted list
  twice by the classifier, once by each marker's filter; with quantity 1 it gives two
  units and takes two addresses, and the subnet is sized for two devices.
\<close>

theorem generateAdresacja_duplicates_row:
  "\<exists>res. fst (generateAdresacja (libWith []) csv0 fsEmpty
                [mkRow ''A'' ''KAT A'' ''WV-U1532LA + WV-S1536LTN'' 1 ''lanz'']
                ''wykaz_X_1'' ''DATA.json'' ''output'' cfgOff) = Inr res
     \<and> map adresIP (rows res) = [''172.16.0.1'', ''172.16.0.2'']
     \<and> map out_nazwa (rows res) = [''WV-U1532LA + WV-S1536LTN'', ''WV-U1532LA + WV-S1536LTN'']
     \<and> sortCsvRows [mkRow ''A'' ''KAT A'' ''WV-U1532LA + WV-S1536LTN'' 1 ''lanz'']
         = Inr [mkRow ''A'' ''KAT A'' ''WV-U1532LA + WV-S1536LTN'' 1 ''lanz'',
                mkRow ''A'' ''KAT A'' ''WV-U1532LA + WV-S1536LTN'' 1 ''lanz'']"
proof -
  have "case fst (generateAdresacja (libWith []) csv0 fsEmpty
                [mkRow ''A'' ''KAT A'' ''WV-U1532LA + WV-S1536LTN'' 1 ''lanz'']
                ''wykaz_X_1'' ''DATA.json'' ''output'' cfgOff) of
          Inl e \<Rightarrow> False
        | Inr res \<Rightarrow> map adresIP (rows res) = [''172.16.0.1'', ''172.16.0.2'']
            \<and> map out_nazwa (rows res) = [''WV-U1532LA + WV-S1536LTN'', ''WV-U1532LA + WV-S1536LTN'']"
    by code_simp
  moreover have "sortCsvRows [mkRow ''A'' ''KAT A'' ''WV-U1532LA + WV-S1536LTN'' 1 ''lanz'']
         = Inr [mkRow ''A'' ''KAT A'' ''WV-U1532LA + WV-S1536LTN'' 1 ''lanz'',
                mkRow ''A'' ''KAT A'' ''WV-U1532LA + WV-S1536LTN'' 1 ''lanz'']"
    by code_simp
  ultimately show ?thesis
    by (auto split: sum.splits)
qed

section \<open>The row classifier\<close>

text \<open>
  C5. The \<open>lanz\<close> groups should come out in the order in which their object names first
  occur. \<open>Object.values\<close> lists the groups whose name is an array index (\<open>1\<close>, \<open>2\<close>, ...)
  first and in numeric order: of two \<open>lanz\<close> rows for the objects \<open>2\<close> and \<open>1\<close> the
  second comes out first. And a \<open>lanz\<close> row whose object name is a property of
  \<open>Object.prototype\<close> makes the classifier throw a \<open>TypeError\<close>.
\<close>

theorem sortCsvRows_group_order:
  "sortCsvRows [mkRow ''2'' ''SKP'' ''kamera'' 1 ''lanz'', mkRow ''1'' ''SKP'' ''kamera'' 1 ''lanz'']
     = Inr [mkRow ''1'' ''SKP'' ''kamera'' 1 ''lanz'', mkRow ''2'' ''SKP'' ''kamera'' 1 ''lanz'']
   \<and> expectedOrder [mkRow ''2'' ''SKP'' ''kamera'' 1 ''lanz'', mkRow ''1'' ''SKP'' ''kamera'' 1 ''lanz'']
     = [mkRow ''2'' ''SKP'' ''kamera'' 1 ''lanz'', mkRow ''1'' ''SKP'' ''kamera'' 1 ''lanz'']
   \<and> sortCsvRows [mkRow ''constructor'' ''SKP'' ''kamera'' 1 ''lanz''] = Inl TypeError"
  by code_simp

text \<open>
  The example of the specification: classes \<open>lanz\<close>, \<open>lan\<close>, \<open>brak\<close>, \<open>lanz1\<close> come out as
  \<open>brak\<close>, \<open>lan\<close>, \<open>lanz\<close>, \<open>lanz1\<close>.
\<close>

lemma sortCsvRows_example:
  "sortCsvRows [mkRow ''A'' ''SKP'' ''k1'' 1 ''lanz'', mkRow ''A'' ''SKP'' ''k2'' 1 ''lan'',
                mkRow ''A'' ''SKP'' ''k3'' 1 ''brak'', mkRow ''A'' ''SKP'' ''k4'' 1 ''lanz1'']
     = Inr [mkRow ''A'' ''SKP'' ''k3'' 1 ''brak'', mkRow ''A'' ''SKP'' ''k2'' 1 ''lan'',
            mkRow ''A'' ''SKP'' ''k1'' 1 ''lanz'', mkRow ''A'' ''SKP'' ''k4'' 1 ''lanz1'']"
  by code_simp

text \<open>
  When the object names of the \<open>lanz\<close> rows are neither array indices nor properties of
  \<open>Object.prototype\<close>, and no \<open>lanz\<close> row matches both markers, the classifier returns
  the order of the specification.
\<close>

lemma keysInOrder_snoc:
  "keysInOrder (ks @ [k]) = (if k \<in> set ks then keysInOrder ks else keysInOrder ks @ [k])"
  by (simp add: keysInOrder_def)

lemma set_keysInOrder: "set (keysInOrder ks) = set ks"
  by (simp add: keysInOrder_def)

lemma distinct_keysInOrder: "distinct (keysInOrder ks)"
  by (simp add: keysInOrder_def)

lemma map_of_keyed:
  "map_of (map (\<lambda>k. (k, f k)) ks) k = (if k \<in> set ks then Some (f k) else None)"
  by (induction ks) auto

lemma setProp_keyed_new:
  "k \<notin> set ks \<Longrightarrow> setProp k v (map (\<lambda>k'. (k', f k')) ks) = map (\<lambda>k'. (k', f k')) ks @ [(k, v)]"
  by (induction ks) auto

lemma setProp_keyed_old:
  "k \<in> set ks \<Longrightarrow> distinct ks \<Longrightarrow>
     setProp k v (map (\<lambda>k'. (k', f k')) ks) = map (\<lambda>k'. (k', if k' = k then v else f k')) ks"
  by (induction ks) auto

lemma groupsOf_snoc_old:
  assumes "nazwaObiektu r \<in> nazwaObiektu ` set ps"
  shows "setProp (nazwaObiektu r) (filter (\<lambda>x. nazwaObiektu x = nazwaObiektu r) ps @ [r]) (groupsOf ps)
           = groupsOf (ps @ [r])"
proof -
  let ?k = "nazwaObiektu r"
  have in_keys: "?k \<in> set (keysInOrder (map nazwaObiektu ps))"
    using assms by (simp add: set_keysInOrder)
  have "setProp ?k (filter (\<lambda>x. nazwaObiektu x = ?k) ps @ [r]) (groupsOf ps)
          = map (\<lambda>k'. (k', if k' = ?k then filter (\<lambda>x. nazwaObiektu x = ?k) ps @ [r]
                             else filter (\<lambda>x. nazwaObiektu x = k') ps))
              (keysInOrder (map nazwaObiektu ps))"
    unfolding groupsOf_def
    by (rule setProp_keyed_old [OF in_keys distinct_keysInOrder])
  also have "\<dots> = groupsOf (ps @ [r])"
    using assms by (auto simp: groupsOf_def keysInOrder_snoc)
  finally show ?thesis .
qed

lemma groupsOf_snoc_new:
  assumes "nazwaObiektu r \<notin> nazwaObiektu ` set ps"
  shows "setProp (nazwaObiektu r) [r] (groupsOf ps) = groupsOf (ps @ [r])"
proof -
  let ?k = "nazwaObiektu r"
  have not_in: "?k \<notin> set (keysInOrder (map nazwaObiektu ps))"
    using assms by (simp add: set_keysInOrder)
  have "nazwaObiektu x \<noteq> ?k" if "x \<in> set ps" for x
    using assms that by (metis imageI)
  then have f: "filter (\<lambda>x. nazwaObiektu x = ?k) ps = []"
    by (simp add: filter_empty_conv)
  have "setProp ?k [r] (groupsOf ps) = groupsOf ps @ [(?k, [r])]"
    unfolding groupsOf_def by (rule setProp_keyed_new [OF not_in])
  also have "\<dots> = groupsOf (ps @ [r])"
    using assms not_in by (auto simp: groupsOf_def keysInOrder_snoc f)
  finally show ?thesis .
qed

lemma groupLanz_groupsOf:
  "\<forall>r \<in> set rs. nazwaObiektu r \<notin> set objectPrototypeKeys \<Longrightarrow>
     groupLanz (groupsOf ps) rs = Inr (groupsOf (ps @ rs))"
proof (induction rs arbitrary: ps)
  case Nil
  then show ?case by simp
next
  case (Cons r rs)
  from Cons.prems have np: "nazwaObiektu r \<notin> set objectPrototypeKeys"
    and rest: "\<forall>r \<in> set rs. nazwaObiektu r \<notin> set objectPrototypeKeys"
    by simp_all
  have look: "map_of (groupsOf ps) (nazwaObiektu r)
      = (if nazwaObiektu r \<in> nazwaObiektu ` set ps
         then Some (filter (\<lambda>x. nazwaObiektu x = nazwaObiektu r) ps) else None)"
    by (simp add: groupsOf_def map_of_keyed set_keysInOrder)
  show ?case
  proof (cases "nazwaObiektu r \<in> nazwaObiektu ` set ps")
    case True
    then show ?thesis
      using Cons.IH [OF rest, of "ps @ [r]"]
      by (simp add: look groupsOf_snoc_old Let_def)
  next
    case False
    then show ?thesis
      using Cons.IH [OF rest, of "ps @ [r]"] np
      by (simp add: look groupsOf_snoc_new Let_def)
  qed
qed

lemma Object_values_plain:
  "\<forall>p \<in> set obj. \<not> isArrayIndex (fst p) \<Longrightarrow> Object_values obj = map snd obj"
proof -
  assume a: "\<forall>p \<in> set obj. \<not> isArrayIndex (fst p)"
  then have "filter (\<lambda>p. isArrayIndex (fst p)) obj = []"
    by (auto simp: filter_empty_conv)
  moreover from a have "filter (\<lambda>p. \<not> isArrayIndex (fst p)) obj = obj"
    by (auto simp: filter_id_conv)
  ultimately show ?thesis
    by (simp add: Object_values_def)
qed

lemma foldl_append_concat: "foldl (\<lambda>acc g. acc @ f g) a gs = a @ concat (map f gs)"
  by (induction gs arbitrary: a) simp_all

lemma sortCsvRows_expectedOrder:
  assumes plain: "\<forall>r \<in> set csvRows. klasa r = ''lanz'' \<longrightarrow>
             \<not> isArrayIndex (nazwaObiektu r) \<and> nazwaObiektu r \<notin> set objectPrototypeKeys"
    and single: "\<forall>r \<in> set csvRows. klasa r = ''lanz'' \<longrightarrow>
             \<not> (includes_str (nazwa r) ''WV-U1532LA'' \<and> includes_str (nazwa r) ''WV-S1536LTN'')"
  shows "sortCsvRows csvRows = Inr (expectedOrder csvRows)"
proof -
  define lanz where "lanz = filter (\<lambda>r. klasa r = ''lanz'') csvRows"
  have np: "\<forall>r \<in> set lanz. nazwaObiektu r \<notin> set objectPrototypeKeys"
    using plain by (simp add: lanz_def)
  have one: "\<forall>r \<in> set lanz. \<not> (includes_str (nazwa r) ''WV-U1532LA''
      \<and> includes_str (nazwa r) ''WV-S1536LTN'')"
    using single by (simp add: lanz_def)
  have mid: "filter (\<lambda>r. nazwaObiektu r = k \<and> includes_str (nazwa r) ''WV-S1536LTN'') lanz
      = filter (\<lambda>r. nazwaObiektu r = k \<and> \<not> includes_str (nazwa r) ''WV-U1532LA''
                    \<and> includes_str (nazwa r) ''WV-S1536LTN'') lanz" for k
    using one by (intro filter_cong) auto
  have e: "groupsOf [] = []"
    by (simp add: groupsOf_def keysInOrder_def)
  from groupLanz_groupsOf [OF np, of "[]"] have g: "groupLanz [] lanz = Inr (groupsOf lanz)"
    by (simp add: e)
  have "\<forall>p \<in> set (groupsOf lanz). \<not> isArrayIndex (fst p)"
    using plain by (auto simp: groupsOf_def set_keysInOrder lanz_def)
  then have v: "Object_values (groupsOf lanz) = map snd (groupsOf lanz)"
    by (rule Object_values_plain)
  have s: "map snd (groupsOf lanz)
            = map (\<lambda>k. filter (\<lambda>r. nazwaObiektu r = k) lanz) (keysInOrder (map nazwaObiektu lanz))"
    by (simp add: groupsOf_def comp_def)
  show ?thesis
    unfolding sortCsvRows_def expectedOrder_def lanz_def [symmetric] Let_def
    by (simp add: g v s foldl_append_concat sortGroup_def Let_def comp_def mid)
qed

text \<open>
  When, moreover, every class is one of the five known ones and no \<open>lanz\<close> row matches
  both markers, the classifier returns a rearrangement of its input: every row once.
\<close>

lemma mset_three_filters:
  "mset (filter A g) + mset (filter (\<lambda>r. \<not> A r \<and> B r) g)
     + mset (filter (\<lambda>r. \<not> A r \<and> \<not> B r) g) = mset g"
  by (induction g) auto

lemma mset_concat_groups:
  "distinct ks \<Longrightarrow> f ` set xs \<subseteq> set ks \<Longrightarrow> \<forall>g. mset (h g) = mset g \<Longrightarrow>
     mset (concat (map (\<lambda>k. h (filter (\<lambda>r. f r = k) xs)) ks)) = mset xs"
proof (induction ks arbitrary: xs)
  case Nil
  then show ?case by simp
next
  case (Cons k ks)
  define ys where "ys = filter (\<lambda>r. f r \<noteq> k) xs"
  have sub: "f ` set ys \<subseteq> set ks"
    using Cons.prems(2) by (auto simp: ys_def)
  have same: "filter (\<lambda>r. f r = k') xs = filter (\<lambda>r. f r = k') ys" if "k' \<in> set ks" for k'
  proof -
    from that Cons.prems(1) have "k' \<noteq> k" by auto
    then have "(f r \<noteq> k \<and> f r = k') = (f r = k')" for r by auto
    then show ?thesis by (simp add: ys_def)
  qed
  have "concat (map (\<lambda>k. h (filter (\<lambda>r. f r = k) xs)) ks)
          = concat (map (\<lambda>k. h (filter (\<lambda>r. f r = k) ys)) ks)"
    using same by (simp cong: map_cong)
  moreover have "mset (concat (map (\<lambda>k. h (filter (\<lambda>r. f r = k) ys)) ks)) = mset ys"
    using Cons.prems(1,3) sub by (intro Cons.IH) simp_all
  moreover have "mset (filter (\<lambda>r. f r = k) xs) + mset ys = mset xs"
    unfolding ys_def by (induction xs) auto
  ultimately show ?case
    using Cons.prems(3) by simp
qed

lemma mset_classes:
  assumes "\<forall>r \<in> set csvRows. klasa r \<in> {[], ''brak'', ''lan'', ''lanz'', ''lanz1''}"
  shows "mset (filter (\<lambda>r. klasa r = [] \<or> klasa r = ''brak'') csvRows)
       + mset (filter (\<lambda>r. klasa r = ''lan'') csvRows)
       + mset (filter (\<lambda>r. klasa r = ''lanz'') csvRows)
       + mset (filter (\<lambda>r. klasa r = ''lanz1'') csvRows) = mset csvRows"
  using assms by (induction csvRows) auto

lemma sortCsvRows_rearranges:
  assumes classes: "\<forall>r \<in> set csvRows. klasa r \<in> {[], ''brak'', ''lan'', ''lanz'', ''lanz1''}"
    and plain: "\<forall>r \<in> set csvRows. klasa r = ''lanz'' \<longrightarrow>
             \<not> isArrayIndex (nazwaObiektu r) \<and> nazwaObiektu r \<notin> set objectPrototypeKeys"
    and single: "\<forall>r \<in> set csvRows. klasa r = ''lanz'' \<longrightarrow>
             \<not> (includes_str (nazwa r) ''WV-U1532LA'' \<and> includes_str (nazwa r) ''WV-S1536LTN'')"
  shows "\<exists>sortedRows. sortCsvRows csvRows = Inr sortedRows \<and> mset sortedRows = mset csvRows"
proof -
  define lanz where "lanz = filter (\<lambda>r. klasa r = ''lanz'') csvRows"
  define h :: "row list \<Rightarrow> row list" where "h = (\<lambda>grupa. filter (\<lambda>r. includes_str (nazwa r) ''WV-U1532LA'') grupa
      @ filter (\<lambda>r. \<not> includes_str (nazwa r) ''WV-U1532LA''
                     \<and> includes_str (nazwa r) ''WV-S1536LTN'') grupa
      @ filter (\<lambda>r. \<not> includes_str (nazwa r) ''WV-U1532LA''
                     \<and> \<not> includes_str (nazwa r) ''WV-S1536LTN'') grupa)"
  have hk: "mset (h (filter (\<lambda>r. nazwaObiektu r = k) lanz)) = mset (filter (\<lambda>r. nazwaObiektu r = k) lanz)"
    for k
    using mset_three_filters [of "\<lambda>r. includes_str (nazwa r) ''WV-U1532LA''"
        "filter (\<lambda>r. nazwaObiektu r = k) lanz" "\<lambda>r. includes_str (nazwa r) ''WV-S1536LTN''"]
    by (simp add: h_def add.assoc)
  have groups: "mset (concat (map (\<lambda>k. h (filter (\<lambda>r. nazwaObiektu r = k) lanz))
                   (keysInOrder (map nazwaObiektu lanz)))) = mset lanz"
  proof -
    have "mset (concat (map (\<lambda>k. h (filter (\<lambda>r. nazwaObiektu r = k) lanz))
                   (keysInOrder (map nazwaObiektu lanz))))
          = (\<Sum>k\<leftarrow>keysInOrder (map nazwaObiektu lanz). mset (h (filter (\<lambda>r. nazwaObiektu r = k) lanz)))"
      by (simp add: mset_concat comp_def)
    also have "\<dots> = (\<Sum>k\<leftarrow>keysInOrder (map nazwaObiektu lanz). mset (filter (\<lambda>r. nazwaObiektu r = k) lanz))"
      by (simp only: hk)
    also have "\<dots> = mset (concat (map (\<lambda>k. (\<lambda>g. g) (filter (\<lambda>r. nazwaObiektu r = k) lanz))
                   (keysInOrder (map nazwaObiektu lanz))))"
      by (simp add: mset_concat comp_def)
    also have "\<dots> = mset lanz"
      by (rule mset_concat_groups) (simp_all add: distinct_keysInOrder set_keysInOrder)
    finally show ?thesis .
  qed
  have "mset (expectedOrder csvRows) = mset csvRows"
    using mset_classes [OF classes] groups
    by (simp add: expectedOrder_def Let_def lanz_def [symmetric] h_def [symmetric] add.assoc)
  with sortCsvRows_expectedOrder [OF plain single] show ?thesis
    by simp
qed

lemma length_expectedUnits:
  "length (expectedUnits m gw ip rs) = (\<Sum>r\<leftarrow>rs. nat (ilosc r))"
  by (induction rs arbitrary: ip) simp_all

lemma generateAdresacja_unit_count:
  assumes "fst (generateAdresacja lib csv fs csvRows fileBase dataJsonPath outputDir cfg) = Inr res"
    and "\<forall>r \<in> set csvRows. klasa r \<in> {[], ''brak'', ''lan'', ''lanz'', ''lanz1''}"
    and "\<forall>r \<in> set csvRows. klasa r = ''lanz'' \<longrightarrow>
             \<not> isArrayIndex (nazwaObiektu r) \<and> nazwaObiektu r \<notin> set objectPrototypeKeys"
    and "\<forall>r \<in> set csvRows. klasa r = ''lanz'' \<longrightarrow>
             \<not> (includes_str (nazwa r) ''WV-U1532LA'' \<and> includes_str (nazwa r) ''WV-S1536LTN'')"
  shows "length (rows res) = (\<Sum>r\<leftarrow>csvRows. nat (ilosc r))"
proof -
  from sortCsvRows_rearranges [OF assms(2-4)] obtain sortedRows where
      s: "sortCsvRows csvRows = Inr sortedRows" and m: "mset sortedRows = mset csvRows"
    by blast
  from generateAdresacja_Inr [OF assms(1)] s
  have "rows res = expectedUnits (mask_a res) (rangeStart_a res) (ipToNumber (rangeStart_a res)) sortedRows"
    by auto
  then have "length (rows res) = (\<Sum>r\<leftarrow>sortedRows. nat (ilosc r))"
    by (simp add: length_expectedUnits)
  also have "\<dots> = sum_mset (image_mset (\<lambda>r. nat (ilosc r)) (mset sortedRows))"
    by (simp add: sum_mset_sum_list [symmetric])
  also have "\<dots> = (\<Sum>r\<leftarrow>csvRows. nat (ilosc r))"
    by (simp only: m) (simp add: sum_mset_sum_list [symmetric])
  finally show ?thesis .
qed

end
